theory Spec2Isabelle
  imports Main "HOL-Library.Word" "HOL-Library.Log_Nat"
begin

section \<open>Go values used by \<^verbatim>\<open>progressbar_printer.go\<close>\<close>

text \<open>
  Go's \<^verbatim>\<open>int\<close> is modelled as a 64-bit word (the width on amd64 and arm64): \<open>+\<close>,
  \<open>-\<close> and \<open>*\<close> wrap around, comparisons are the signed ones (\<open>\<le>s\<close>, \<open><s\<close>) and
  \<open>sint\<close> reads the two's-complement value. A Go \<^verbatim>\<open>string\<close> is a byte sequence,
  modelled as \<open>string\<close>; \<^verbatim>\<open>len\<close> counts bytes.
\<close>

type_synonym go_int = "64 word"

definition go_len :: "string \<Rightarrow> go_int" where
  "go_len s = word_of_nat (length s)"

text \<open>
  Go's integer division truncates toward zero; the one overflowing quotient
  (the least integer divided by \<open>-1\<close>) wraps. Division by zero panics in Go: the only
  division of the file is behind the \<^verbatim>\<open>p.Total == 0\<close> guard of \<^verbatim>\<open>getString\<close>.
\<close>

definition go_div :: "go_int \<Rightarrow> go_int \<Rightarrow> go_int" where
  "go_div a b = word_of_int (sgn (sint a) * sgn (sint b) * (\<bar>sint a\<bar> div \<bar>sint b\<bar>))"

text \<open>
  The string that \<^verbatim>\<open>strings.Repeat(s, count)\<close> returns, where it returns. Where it
  panics is \<open>strings_Repeat\<close> below.
\<close>

definition Repeat :: "string \<Rightarrow> go_int \<Rightarrow> string" where
  "Repeat s n = concat (replicate (nat (sint n)) s)"

type_synonym Time = int
type_synonym Duration = int

text \<open>\<^verbatim>\<open>type Style []Color\<close>; \<^verbatim>\<open>NewStyle()\<close> without arguments is the empty style.\<close>

type_synonym Style = "nat list"

definition NewStyle :: Style where
  "NewStyle = []"

text \<open>An \<^verbatim>\<open>io.Writer\<close> is a handle; \<open>None\<close> is the nil interface.\<close>

type_synonym Writer = "nat option"

section \<open>Collaborators outside \<^verbatim>\<open>progressbar_printer.go\<close>\<close>

text \<open>
  The functions that \<^verbatim>\<open>getString\<close> and \<^verbatim>\<open>Start\<close> call and that are not in the
  file are parameters of the model, collected in one record. The clock and the
  \<^verbatim>\<open>RawOutput\<close> switch are read once for each operation; the terminal width is read
  at each call.
  \<^item> \<open>GetTerminalWidth k\<close>: what the call number \<open>k\<close> of \<^verbatim>\<open>GetTerminalWidth()\<close> in a
    render returns, counted from 0. A render calls it once or twice, and the terminal may
    be resized between the two calls.
  \<^item> \<open>Style_Sprint\<close>: \<^verbatim>\<open>(*Style).Sprint\<close>.
  \<^item> \<open>Gray\<close>, \<open>LightWhite\<close>: the colour helpers.
  \<^item> \<open>Sprintf_pad w n\<close>: \<^verbatim>\<open>fmt.Sprintf("%0*d", w, n)\<close>.
  \<^item> \<open>Sprint_int\<close>: the decimal text that \<^verbatim>\<open>LightWhite(p.Total)\<close> colours.
  \<^item> \<open>Log10_int n\<close>: \<^verbatim>\<open>int(math.Log10(float64(n)))\<close>, a floating-point computation.
  \<^item> \<open>PercentageRound t c\<close>: \<^verbatim>\<open>int(internal.PercentageRound(float64(int64(t)), float64(int64(c))))\<close>.
  \<^item> \<open>Fade_Sprintf t c pc\<close>: \<^verbatim>\<open>color.RGB(NewRGB(255, 0, 0).Fade(0, float32(t), float32(c), NewRGB(0, 255, 0)).GetValues()).Sprintf("%3d%%", pc)\<close>.
  \<^item> \<open>RemoveColorFromString\<close>: \<^verbatim>\<open>RemoveColorFromString\<close>.
  \<^item> \<open>time_Now\<close>: \<^verbatim>\<open>time.Now()\<close>; \<open>Duration_Round\<close>, \<open>Duration_String\<close>: the methods of
    \<^verbatim>\<open>time.Duration\<close>.
  \<^item> \<open>RawOutput\<close>: \<^verbatim>\<open>RawOutput.Load()\<close>.
  \<^item> \<open>maxAlloc\<close>: the length in bytes of the longest string that the Go runtime can
    allocate for \<^verbatim>\<open>strings.Repeat\<close> during the operation.
\<close>

record Env =
  GetTerminalWidth :: "nat \<Rightarrow> go_int"
  Style_Sprint :: "Style \<Rightarrow> string \<Rightarrow> string"
  Gray :: "string \<Rightarrow> string"
  LightWhite :: "string \<Rightarrow> string"
  Sprintf_pad :: "go_int \<Rightarrow> go_int \<Rightarrow> string"
  Sprint_int :: "go_int \<Rightarrow> string"
  Log10_int :: "go_int \<Rightarrow> go_int"
  PercentageRound :: "go_int \<Rightarrow> go_int \<Rightarrow> go_int"
  Fade_Sprintf :: "go_int \<Rightarrow> go_int \<Rightarrow> go_int \<Rightarrow> string"
  RemoveColorFromString :: "string \<Rightarrow> string"
  time_Now :: Time
  Duration_Round :: "Duration \<Rightarrow> Duration \<Rightarrow> Duration"
  Duration_String :: "Duration \<Rightarrow> string"
  RawOutput :: bool
  maxAlloc :: int

section \<open>The printer\<close>

text \<open>
  The struct \<^verbatim>\<open>ProgressbarPrinter\<close>. A pointer field is an option (\<open>None\<close> is nil):
  \<open>atomicIsActive\<close> and \<open>atomicTitle\<close> hold the value stored in the atomic,
  \<open>rerenderTask\<close> holds whether the scheduled task is still active. The copies that the
  value receivers make share the atomics they point to; the operations below are
  followed on one instance, in sequence, and the renders of the scheduled task, which run
  concurrently, are not part of the model.
\<close>

record ProgressbarPrinter =
  Title :: string
  Total :: go_int
  Current :: go_int
  BarCharacter :: string
  LastCharacter :: string
  ElapsedTimeRoundingFactor :: Duration
  BarFiller :: string
  MaxWidth :: go_int
  ShowElapsedTime :: bool
  ShowCount :: bool
  ShowTitle :: bool
  ShowPercentage :: bool
  RemoveWhenDone :: bool
  TitleStyle :: "Style option"
  BarStyle :: "Style option"
  IsActive :: bool
  startedAt :: Time
  rerenderTask :: "bool option"
  Writer :: Writer
  atomicIsActive :: "bool option"
  atomicTitle :: "string option"

text \<open>
  The ways in which a call does not return: the nil pointer dereference, which the file
  can raise itself, the two panics of \<^verbatim>\<open>strings.Repeat\<close>, on a negative count and on a
  result longer than an \<^verbatim>\<open>int\<close> can count, and the failure of the Go runtime to
  allocate the result (the panic of \<^verbatim>\<open>make\<close> on a length out of range, or the fatal
  error that ends a program out of memory).
\<close>

datatype panic =
  NilPointerDereference | RepeatNegativeCount | RepeatOutputOverflow | AllocationFailure

text \<open>
  What an operation does to the world, in order: writes to the sink (\<^verbatim>\<open>Fprinto\<close>,
  \<^verbatim>\<open>Fprintln\<close>, \<^verbatim>\<open>fClearLine\<close>), cursor calls, the scheduler (\<^verbatim>\<open>schedule.Every\<close>,
  \<^verbatim>\<open>Task.Stop\<close>) and the append to \<^verbatim>\<open>activeProgressBarPrinters\<close>. A panic discards
  the state and the effects that came before it.
\<close>

datatype event =
    Fprinto Writer string
  | Fprintln Writer string
  | fClearLine Writer
  | cursor_Show
  | cursor_Hide
  | schedule_Every
  | Task_Stop
  | activeProgressBarPrinters_append

text \<open>What \<^verbatim>\<open>Add\<close> returns: nil, or the receiver.\<close>

datatype returned = ReturnedNil | ReturnedReceiver

definition lazyInit :: "ProgressbarPrinter \<Rightarrow> ProgressbarPrinter" where
  "lazyInit p =
     (let p1 = (if atomicIsActive p = None then p\<lparr>atomicIsActive := Some (IsActive p)\<rparr> else p)
      in if atomicTitle p1 = None then p1\<lparr>atomicTitle := Some (Title p1)\<rparr> else p1)"

subsection \<open>Option setters\<close>

definition WithTitle :: "ProgressbarPrinter \<Rightarrow> string \<Rightarrow> ProgressbarPrinter" where
  "WithTitle p name = (lazyInit p)\<lparr>atomicTitle := Some name, Title := name\<rparr>"


definition WithTotal :: "ProgressbarPrinter \<Rightarrow> go_int \<Rightarrow> ProgressbarPrinter" where
  "WithTotal p total' = (lazyInit p)\<lparr>Total := total'\<rparr>"


definition WithBarCharacter :: "ProgressbarPrinter \<Rightarrow> string \<Rightarrow> ProgressbarPrinter" where
  "WithBarCharacter p char = (lazyInit p)\<lparr>BarCharacter := char\<rparr>"

definition WithLastCharacter :: "ProgressbarPrinter \<Rightarrow> string \<Rightarrow> ProgressbarPrinter" where
  "WithLastCharacter p char = (lazyInit p)\<lparr>LastCharacter := char\<rparr>"



definition WithShowCount :: "ProgressbarPrinter \<Rightarrow> bool \<Rightarrow> ProgressbarPrinter" where
  "WithShowCount p b = (lazyInit p)\<lparr>ShowCount := b\<rparr>"

definition WithShowTitle :: "ProgressbarPrinter \<Rightarrow> bool \<Rightarrow> ProgressbarPrinter" where
  "WithShowTitle p b = (lazyInit p)\<lparr>ShowTitle := b\<rparr>"

definition WithShowPercentage :: "ProgressbarPrinter \<Rightarrow> bool \<Rightarrow> ProgressbarPrinter" where
  "WithShowPercentage p b = (lazyInit p)\<lparr>ShowPercentage := b\<rparr>"





definition WithBarFiller :: "ProgressbarPrinter \<Rightarrow> string \<Rightarrow> ProgressbarPrinter" where
  "WithBarFiller p char = (lazyInit p)\<lparr>BarFiller := char\<rparr>"





subsection \<open>Rendering: \<^verbatim>\<open>getString\<close>\<close>

definition GetElapsedTime :: "Env \<Rightarrow> ProgressbarPrinter \<Rightarrow> Duration" where
  "GetElapsedTime env p = time_Now env - startedAt p"

definition parseElapsedTime :: "Env \<Rightarrow> ProgressbarPrinter \<Rightarrow> string" where
  "parseElapsedTime env p =
     Duration_String env (Duration_Round env (GetElapsedTime env p) (ElapsedTimeRoundingFactor p))"

text \<open>
  The local variables of \<^verbatim>\<open>getString\<close> below its guards, one definition each, in the
  order of the source. They are evaluated on the printer whose nil styles have been
  replaced and whose \<open>atomicTitle\<close> is not nil when the title is shown. With a positive
  \<open>MaxWidth\<close> the source calls \<^verbatim>\<open>GetTerminalWidth()\<close> to compare the terminal with
  \<open>MaxWidth\<close> and, where the terminal is the narrower, calls it again for the width.
\<close>

definition width :: "Env \<Rightarrow> ProgressbarPrinter \<Rightarrow> go_int" where
  "width env p =
     (if MaxWidth p \<le>s 0 then GetTerminalWidth env 0
      else if GetTerminalWidth env 0 <s MaxWidth p then GetTerminalWidth env 1
      else MaxWidth p)"

definition style_of :: "Style option \<Rightarrow> Style" where
  "style_of s = (case s of None \<Rightarrow> NewStyle | Some st \<Rightarrow> st)"

definition title_of :: "string option \<Rightarrow> string" where
  "title_of t = (case t of None \<Rightarrow> [] | Some s \<Rightarrow> s)"

definition before :: "Env \<Rightarrow> ProgressbarPrinter \<Rightarrow> string" where
  "before env p =
     (if ShowTitle p
      then Style_Sprint env (style_of (TitleStyle p)) (title_of (atomicTitle p)) @ '' ''
      else []) @
     (if ShowCount p
      then (let padding = 1 + Log10_int env (Total p)
            in Gray env ''['' @ LightWhite env (Sprintf_pad env padding (Current p)) @
               Gray env ''/'' @ LightWhite env (Sprint_int env (Total p)) @
               Gray env '']'' @ '' '')
      else [])"

definition after :: "Env \<Rightarrow> ProgressbarPrinter \<Rightarrow> string" where
  "after env p =
     '' '' @
     (if ShowPercentage p
      then (let currentPercentage = PercentageRound env (Total p) (Current p)
            in Fade_Sprintf env (Total p) (Current p) currentPercentage @ '' '')
      else []) @
     (if ShowElapsedTime p then ''| '' @ parseElapsedTime env p else [])"

definition barMaxLength :: "Env \<Rightarrow> ProgressbarPrinter \<Rightarrow> go_int" where
  "barMaxLength env p =
     width env p - go_len (RemoveColorFromString env (before env p))
       - go_len (RemoveColorFromString env (after env p)) - 1"

definition barCurrentLength :: "Env \<Rightarrow> ProgressbarPrinter \<Rightarrow> go_int" where
  "barCurrentLength env p = go_div (Current p * barMaxLength env p) (Total p)"

definition barFiller :: "Env \<Rightarrow> ProgressbarPrinter \<Rightarrow> string" where
  "barFiller env p =
     (if 0 <s barMaxLength env p - barCurrentLength env p
      then Repeat (BarFiller p) (barMaxLength env p - barCurrentLength env p)
      else [])"

definition bar :: "Env \<Rightarrow> ProgressbarPrinter \<Rightarrow> string" where
  "bar env p =
     (if 0 <s barCurrentLength env p
      then Style_Sprint env (style_of (BarStyle p))
             (Repeat (BarCharacter p) (barCurrentLength env p) @ LastCharacter p) @ barFiller env p
      else barFiller env p)"

definition getString :: "Env \<Rightarrow> ProgressbarPrinter \<Rightarrow> panic + (string \<times> ProgressbarPrinter)" where
  "getString env p =
     (case atomicIsActive p of
        None \<Rightarrow> Inl NilPointerDereference
      | Some active \<Rightarrow>
          if \<not> active then Inr ([], p)
          else
            (let p1 = (if TitleStyle p = None then p\<lparr>TitleStyle := Some NewStyle\<rparr> else p);
                 p2 = (if BarStyle p1 = None then p1\<lparr>BarStyle := Some NewStyle\<rparr> else p1)
             in if Total p2 = 0 then Inr ([], p2)
                else if ShowTitle p2 \<and> atomicTitle p2 = None then Inl NilPointerDereference
                else Inr (before env p2 @ bar env p2 @ after env p2, p2)))"

definition updateProgress ::
  "Env \<Rightarrow> ProgressbarPrinter \<Rightarrow> panic + (ProgressbarPrinter \<times> event list)" where
  "updateProgress env p =
     (case getString env p of
        Inl e \<Rightarrow> Inl e
      | Inr (s, p1) \<Rightarrow> Inr (p1, [Fprinto (Writer p1) s]))"

subsection \<open>Lifecycle\<close>

definition Stop :: "ProgressbarPrinter \<Rightarrow> panic + (ProgressbarPrinter \<times> event list)" where
  "Stop p =
     (let (p1, out1) =
            (if rerenderTask p = Some True then (p\<lparr>rerenderTask := Some False\<rparr>, [Task_Stop])
             else (p, []));
          out2 = out1 @ [cursor_Show]
      in case atomicIsActive p1 of
           None \<Rightarrow> Inl NilPointerDereference
         | Some active \<Rightarrow>
             if \<not> active then Inr (p1, out2)
             else
               (let p2 = p1\<lparr>IsActive := False, atomicIsActive := Some False\<rparr>
                in if RemoveWhenDone p2
                   then Inr (p2, out2 @ [fClearLine (Writer p2), Fprinto (Writer p2) []])
                   else Inr (p2, out2 @ [Fprintln (Writer p2) []])))"

definition Add ::
  "Env \<Rightarrow> ProgressbarPrinter \<Rightarrow> go_int \<Rightarrow> panic + (returned \<times> ProgressbarPrinter \<times> event list)" where
  "Add env p count =
     (if Total p = 0 then Inr (ReturnedNil, p, [])
      else
        (case updateProgress env (p\<lparr>Current := Current p + count\<rparr>) of
           Inl e \<Rightarrow> Inl e
         | Inr (p1, out1) \<Rightarrow>
             if Total p1 \<le>s Current p1
             then (case updateProgress env (p1\<lparr>Total := Current p1\<rparr>) of
                     Inl e \<Rightarrow> Inl e
                   | Inr (p2, out2) \<Rightarrow>
                       (case Stop p2 of
                          Inl e \<Rightarrow> Inl e
                        | Inr (p3, out3) \<Rightarrow> Inr (ReturnedReceiver, p3, out1 @ out2 @ out3)))
             else Inr (ReturnedReceiver, p1, out1)))"

definition Increment ::
  "Env \<Rightarrow> ProgressbarPrinter \<Rightarrow> panic + (ProgressbarPrinter \<times> event list)" where
  "Increment env p =
     (case Add env p 1 of
        Inl e \<Rightarrow> Inl e
      | Inr (r, p1, out) \<Rightarrow> Inr (p1, out))"


text \<open>
  \<^verbatim>\<open>Start(title ...interface{})\<close>: the argument is \<open>None\<close> when no title is given and
  \<open>Some (Sprint(title...))\<close> otherwise. The receiver is a copy; the result is the copy.
\<close>

definition Start ::
  "Env \<Rightarrow> ProgressbarPrinter \<Rightarrow> string option \<Rightarrow> panic + (ProgressbarPrinter \<times> event list)" where
  "Start env p title =
     (let p1 = (lazyInit p)\<lparr>IsActive := True\<rparr>
      in case atomicIsActive p1 of
           None \<Rightarrow> Inl NilPointerDereference
         | Some old \<Rightarrow>
            (let p2 = p1\<lparr>atomicIsActive := Some (IsActive p1)\<rparr>
             in case atomicTitle p2 of
                  None \<Rightarrow> Inl NilPointerDereference
                | Some t0 \<Rightarrow>
                   (let p3 = (case title of
                                None \<Rightarrow> p2
                              | Some t \<Rightarrow> p2\<lparr>Title := t, atomicTitle := Some t\<rparr>);
                        out1 = [cursor_Hide] @
                               (if RawOutput env \<and> ShowTitle p3
                                then [Fprintln (Writer p3) (title_of (atomicTitle p3))]
                                else []) @
                               [activeProgressBarPrinters_append];
                        p4 = p3\<lparr>startedAt := time_Now env\<rparr>
                    in case updateProgress env p4 of
                         Inl e \<Rightarrow> Inl e
                       | Inr (p5, out2) \<Rightarrow>
                           if ShowElapsedTime p5
                           then Inr (p5\<lparr>rerenderTask := Some True\<rparr>, out1 @ out2 @ [schedule_Every])
                           else Inr (p5, out1 @ out2))))"

subsection \<open>The panics of \<^verbatim>\<open>strings.Repeat\<close>\<close>

text \<open>
  The definitions above take the bar as a string of any length. \<^verbatim>\<open>strings.Repeat\<close>
  panics where the count is negative and where \<open>len(s) * count\<close> overflows \<^verbatim>\<open>int\<close>, and
  it does not return where the runtime cannot allocate a string of \<open>len(s) * count\<close>
  bytes. The render and \<^verbatim>\<open>Add\<close> are given again with these failures: the filler is
  repeated first and the bar character second, as in the source, and a failure of either
  ends the render, and with it the call of \<^verbatim>\<open>Add\<close>, at that point.
\<close>

definition strings_Repeat :: "Env \<Rightarrow> string \<Rightarrow> go_int \<Rightarrow> panic + string" where
  "strings_Repeat env s n =
     (if sint n < 0 then Inl RepeatNegativeCount
      else if 2 ^ 63 \<le> int (length s) * sint n then Inl RepeatOutputOverflow
      else if maxAlloc env < int (length s) * sint n then Inl AllocationFailure
      else Inr (Repeat s n))"

definition barFiller_bounded :: "Env \<Rightarrow> ProgressbarPrinter \<Rightarrow> panic + string" where
  "barFiller_bounded env p =
     (if 0 <s barMaxLength env p - barCurrentLength env p
      then strings_Repeat env (BarFiller p) (barMaxLength env p - barCurrentLength env p)
      else Inr [])"

definition bar_bounded :: "Env \<Rightarrow> ProgressbarPrinter \<Rightarrow> panic + string" where
  "bar_bounded env p =
     (case barFiller_bounded env p of
        Inl e \<Rightarrow> Inl e
      | Inr filler \<Rightarrow>
          if 0 <s barCurrentLength env p
          then (case strings_Repeat env (BarCharacter p) (barCurrentLength env p) of
                  Inl e \<Rightarrow> Inl e
                | Inr run \<Rightarrow>
                    Inr (Style_Sprint env (style_of (BarStyle p)) (run @ LastCharacter p) @ filler))
          else Inr filler)"

definition getString_bounded ::
  "Env \<Rightarrow> ProgressbarPrinter \<Rightarrow> panic + (string \<times> ProgressbarPrinter)" where
  "getString_bounded env p =
     (case atomicIsActive p of
        None \<Rightarrow> Inl NilPointerDereference
      | Some active \<Rightarrow>
          if \<not> active then Inr ([], p)
          else
            (let p1 = (if TitleStyle p = None then p\<lparr>TitleStyle := Some NewStyle\<rparr> else p);
                 p2 = (if BarStyle p1 = None then p1\<lparr>BarStyle := Some NewStyle\<rparr> else p1)
             in if Total p2 = 0 then Inr ([], p2)
                else if ShowTitle p2 \<and> atomicTitle p2 = None then Inl NilPointerDereference
                else (case bar_bounded env p2 of
                        Inl e \<Rightarrow> Inl e
                      | Inr b \<Rightarrow> Inr (before env p2 @ b @ after env p2, p2))))"

definition updateProgress_bounded ::
  "Env \<Rightarrow> ProgressbarPrinter \<Rightarrow> panic + (ProgressbarPrinter \<times> event list)" where
  "updateProgress_bounded env p =
     (case getString_bounded env p of
        Inl e \<Rightarrow> Inl e
      | Inr (s, p1) \<Rightarrow> Inr (p1, [Fprinto (Writer p1) s]))"

definition Add_bounded ::
  "Env \<Rightarrow> ProgressbarPrinter \<Rightarrow> go_int \<Rightarrow> panic + (returned \<times> ProgressbarPrinter \<times> event list)" where
  "Add_bounded env p count =
     (if Total p = 0 then Inr (ReturnedNil, p, [])
      else
        (case updateProgress_bounded env (p\<lparr>Current := Current p + count\<rparr>) of
           Inl e \<Rightarrow> Inl e
         | Inr (p1, out1) \<Rightarrow>
             if Total p1 \<le>s Current p1
             then (case updateProgress_bounded env (p1\<lparr>Total := Current p1\<rparr>) of
                     Inl e \<Rightarrow> Inl e
                   | Inr (p2, out2) \<Rightarrow>
                       (case Stop p2 of
                          Inl e \<Rightarrow> Inl e
                        | Inr (p3, out3) \<Rightarrow> Inr (ReturnedReceiver, p3, out1 @ out2 @ out3)))
             else Inr (ReturnedReceiver, p1, out1)))"

definition Increment_bounded ::
  "Env \<Rightarrow> ProgressbarPrinter \<Rightarrow> panic + (ProgressbarPrinter \<times> event list)" where
  "Increment_bounded env p =
     (case Add_bounded env p 1 of
        Inl e \<Rightarrow> Inl e
      | Inr (r, p1, out) \<Rightarrow> Inr (p1, out))"

text \<open>A run of \<^verbatim>\<open>Increment\<close> calls, with their effects in order.\<close>

fun Increments_bounded ::
  "Env \<Rightarrow> nat \<Rightarrow> ProgressbarPrinter \<Rightarrow> panic + (ProgressbarPrinter \<times> event list)" where
  "Increments_bounded env 0 p = Inr (p, [])"
| "Increments_bounded env (Suc n) p =
     (case Increment_bounded env p of
        Inl e \<Rightarrow> Inl e
      | Inr (p1, out1) \<Rightarrow>
          (case Increments_bounded env n p1 of
             Inl e \<Rightarrow> Inl e
           | Inr (p2, out2) \<Rightarrow> Inr (p2, out1 @ out2)))"

text \<open>
  \<open>len(s) * count\<close> is within \<^verbatim>\<open>int\<close> and within what the runtime can allocate, for
  one call of \<^verbatim>\<open>strings.Repeat\<close> and for the two calls that the render of a bar makes.
  Where a count is not positive the call is not made.
\<close>

definition Repeat_fits :: "Env \<Rightarrow> string \<Rightarrow> go_int \<Rightarrow> bool" where
  "Repeat_fits env s n =
     (0 <s n \<longrightarrow> int (length s) * sint n < 2 ^ 63 \<and> int (length s) * sint n \<le> maxAlloc env)"

definition bar_fits :: "Env \<Rightarrow> ProgressbarPrinter \<Rightarrow> bool" where
  "bar_fits env p =
     (Repeat_fits env (BarFiller p) (barMaxLength env p - barCurrentLength env p) \<and>
      Repeat_fits env (BarCharacter p) (barCurrentLength env p))"

text \<open>
  Both atomics are set: the state that \<^verbatim>\<open>lazyInit\<close> establishes.
\<close>

definition initialised :: "ProgressbarPrinter \<Rightarrow> bool" where
  "initialised p = (atomicIsActive p \<noteq> None \<and> atomicTitle p \<noteq> None)"


text \<open>The zero value of the struct: what \<^verbatim>\<open>ProgressbarPrinter{}\<close> denotes.\<close>

definition zero_value :: ProgressbarPrinter where
  "zero_value =
     \<lparr>Title = [], Total = 0, Current = 0, BarCharacter = [], LastCharacter = [],
      ElapsedTimeRoundingFactor = 0, BarFiller = [], MaxWidth = 0,
      ShowElapsedTime = False, ShowCount = False, ShowTitle = False, ShowPercentage = False,
      RemoveWhenDone = False, TitleStyle = None, BarStyle = None, IsActive = False,
      startedAt = 0, rerenderTask = None, Writer = None,
      atomicIsActive = None, atomicTitle = None\<rparr>"

section \<open>A concrete terminal and a concrete bar\<close>

text \<open>
  The instances at which the theorems below are evaluated. \<open>plain_terminal cols now\<close> is
  a terminal of \<open>cols\<close> columns without colour support, read at the instant \<open>now\<close>:
  styling leaves the text as it is, so that stripping has nothing to remove. Numbers are
  printed in decimal; \<open>format_0d\<close> pads with zeros to a non-negative width, as
  \<^verbatim>\<open>%0*d\<close> does, and \<open>format_3d\<close> pads with blanks to three characters, as \<^verbatim>\<open>%3d\<close>
  does. The logarithm is the number of decimal digits less one, the percentage is rounded
  to the nearest integer, and a duration is printed in whole seconds.
\<close>

definition digit_char :: "nat \<Rightarrow> char" where
  "digit_char d = ''0123456789'' ! d"

fun decimal :: "nat \<Rightarrow> string" where
  "decimal n = (if n < 10 then [digit_char n] else decimal (n div 10) @ [digit_char (n mod 10)])"

declare decimal.simps [simp del]

definition format_d :: "go_int \<Rightarrow> string" where
  "format_d n = (if sint n < 0 then ''-'' else []) @ decimal (nat \<bar>sint n\<bar>)"

definition format_0d :: "go_int \<Rightarrow> go_int \<Rightarrow> string" where
  "format_0d w n =
     (let sign = (if sint n < 0 then ''-'' else []); d = decimal (nat \<bar>sint n\<bar>)
      in sign @ replicate (nat (sint w) - length sign - length d) CHR ''0'' @ d)"

definition format_3d :: "go_int \<Rightarrow> string" where
  "format_3d n = (let d = format_d n in replicate (3 - length d) CHR '' '' @ d)"

definition plain_terminal :: "go_int \<Rightarrow> Time \<Rightarrow> Env" where
  "plain_terminal cols now =
     \<lparr>GetTerminalWidth = (\<lambda>k. cols),
      Style_Sprint = (\<lambda>st s. s),
      Gray = (\<lambda>s. s),
      LightWhite = (\<lambda>s. s),
      Sprintf_pad = format_0d,
      Sprint_int = format_d,
      Log10_int = (\<lambda>n. word_of_nat (length (decimal (nat (sint n))) - 1)),
      PercentageRound = (\<lambda>t c. word_of_int ((200 * sint c + sint t) div (2 * sint t))),
      Fade_Sprintf = (\<lambda>t c pc. format_3d pc @ ''%''),
      RemoveColorFromString = (\<lambda>s. s),
      time_Now = now,
      Duration_Round = (\<lambda>d m. if m \<le> 0 then d else ((d + m div 2) div m) * m),
      Duration_String = (\<lambda>d. decimal (nat (d div 1000000000)) @ ''s''),
      RawOutput = False,
      maxAlloc = 2 ^ 48\<rparr>"

text \<open>
  A bar built from the zero value by the option setters: title, count and percentage
  shown, five steps, one-byte bar characters.
\<close>

definition demo_bar :: ProgressbarPrinter where
  "demo_bar =
     WithShowPercentage (WithShowCount (WithShowTitle
       (WithBarFiller (WithLastCharacter (WithBarCharacter
          (WithTotal (WithTitle zero_value ''Copying'') 5) ''='') ''>'') ''-'') True) True) True"

text \<open>The same bar after \<^verbatim>\<open>Start()\<close>, with \<open>Current\<close> set to \<open>n\<close>.\<close>

definition started_bar :: "go_int \<Rightarrow> ProgressbarPrinter" where
  "started_bar n =
     \<lparr>Title = ''Copying'', Total = 5, Current = n, BarCharacter = ''='', LastCharacter = ''>'',
      ElapsedTimeRoundingFactor = 0, BarFiller = ''-'', MaxWidth = 0,
      ShowElapsedTime = False, ShowCount = True, ShowTitle = True, ShowPercentage = True,
      RemoveWhenDone = False, TitleStyle = Some [], BarStyle = Some [], IsActive = True,
      startedAt = 0, rerenderTask = None, Writer = None,
      atomicIsActive = Some True, atomicTitle = Some ''Copying''\<rparr>"

text \<open>
  A started bar of \<open>2\<^sup>6\<^sup>2\<close> steps, all of them done, that shows no count: its product
  \<open>Current * barMaxLength\<close> leaves the range of \<^verbatim>\<open>int\<close>.
\<close>

definition huge_bar :: ProgressbarPrinter where
  "huge_bar =
     (started_bar 4611686018427387904)\<lparr>Total := 4611686018427387904, ShowCount := False\<rparr>"

text \<open>
  The plain terminal while it is resized: the first read of its width in a render gives
  \<open>cols0\<close> columns, the second \<open>cols1\<close>.
\<close>

definition resized_terminal :: "go_int \<Rightarrow> go_int \<Rightarrow> Time \<Rightarrow> Env" where
  "resized_terminal cols0 cols1 now =
     (plain_terminal cols0 now)\<lparr>GetTerminalWidth := (\<lambda>k. if k = 0 then cols0 else cols1)\<rparr>"

text \<open>
  A started bar of one step that shows its title alone, and the same bar with the three
  bytes of U+2588 for its bar character.
\<close>

definition one_step_bar :: ProgressbarPrinter where
  "one_step_bar = (started_bar 0)\<lparr>Total := 1, ShowCount := False, ShowPercentage := False\<rparr>"

definition block_bar :: ProgressbarPrinter where
  "block_bar = one_step_bar\<lparr>BarCharacter := [CHR 0xE2, CHR 0x96, CHR 0x88]\<rparr>"

section \<open>Rendering and stopping on an initialised bar\<close>

text \<open>
  \<^verbatim>\<open>Start\<close> on the concrete bar, on a plain terminal of 40 columns: the cursor is
  hidden, the bar is registered and the first frame is written; no task is scheduled,
  since the elapsed time is not shown.
\<close>

lemma Start_demo_bar:
  "Start (plain_terminal 40 0) demo_bar None =
     Inr (started_bar 0,
          [cursor_Hide, activeProgressBarPrinters_append,
           Fprinto None ''Copying [0/5] -------------------   0% ''])"
  by code_simp

text \<open>
  Once both atomics are set, \<^verbatim>\<open>getString\<close> returns, and the printer it leaves differs
  from the one it was given in the two style fields at most.
\<close>

lemma getString_initialised:
  assumes "atomicIsActive p \<noteq> None" and "atomicTitle p \<noteq> None"
  shows "\<exists>s ts bs. getString env p = Inr (s, p\<lparr>TitleStyle := ts, BarStyle := bs\<rparr>)"
proof -
  obtain a t where a: "atomicIsActive p = Some a" and t: "atomicTitle p = Some t"
    using assms by auto
  have same: "p = p\<lparr>TitleStyle := TitleStyle p, BarStyle := BarStyle p\<rparr>"
    by simp
  show ?thesis
  proof (cases a)
    case False
    with a have "getString env p = Inr ([], p)"
      by (simp add: getString_def)
    with same show ?thesis by metis
  next
    case True
    define p1 where "p1 = (if TitleStyle p = None then p\<lparr>TitleStyle := Some NewStyle\<rparr> else p)"
    define p2 where "p2 = (if BarStyle p1 = None then p1\<lparr>BarStyle := Some NewStyle\<rparr> else p1)"
    have p2: "p2 = p\<lparr>TitleStyle := TitleStyle p2, BarStyle := BarStyle p2\<rparr>"
      by (simp add: p2_def p1_def)
    have "getString env p = Inr ([], p2) \<or>
               getString env p = Inr (before env p2 @ bar env p2 @ after env p2, p2)"
      using a True t by (auto simp: getString_def Let_def p2_def p1_def)
    with p2 show ?thesis by metis
  qed
qed

lemma updateProgress_initialised:
  assumes "atomicIsActive p \<noteq> None" and "atomicTitle p \<noteq> None"
  shows "\<exists>s ts bs. getString env p = Inr (s, p\<lparr>TitleStyle := ts, BarStyle := bs\<rparr>) \<and>
           updateProgress env p = Inr (p\<lparr>TitleStyle := ts, BarStyle := bs\<rparr>, [Fprinto (Writer p) s])"
proof -
  obtain s ts bs where "getString env p = Inr (s, p\<lparr>TitleStyle := ts, BarStyle := bs\<rparr>)"
    using getString_initialised [OF assms] by blast
  then show ?thesis
    by (auto simp: updateProgress_def)
qed

lemma updateProgress_fields:
  assumes "atomicIsActive p \<noteq> None" and "atomicTitle p \<noteq> None"
  obtains s p1 where "getString env p = Inr (s, p1)"
    and "updateProgress env p = Inr (p1, [Fprinto (Writer p) s])"
    and "\<exists>ts bs. p1 = p\<lparr>TitleStyle := ts, BarStyle := bs\<rparr>"
  using updateProgress_initialised [OF assms, of env] by blast

lemma Stop_initialised:
  assumes "atomicIsActive p = Some a"
  shows "Stop p =
           Inr (p\<lparr>rerenderTask := (if rerenderTask p = Some True then Some False else rerenderTask p),
                  IsActive := (if a then False else IsActive p),
                  atomicIsActive := Some False\<rparr>,
                (if rerenderTask p = Some True then [Task_Stop] else []) @ [cursor_Show] @
                (if a then (if RemoveWhenDone p then [fClearLine (Writer p), Fprinto (Writer p) []]
                            else [Fprintln (Writer p) []])
                 else []))"
  using assms by (cases a) (auto simp: Stop_def Let_def)

lemma Add_unfold_below:
  assumes "Total p \<noteq> 0"
    and "updateProgress env (p\<lparr>Current := Current p + count\<rparr>) = Inr (p1, out1)"
    and "\<not> Total p1 \<le>s Current p1"
  shows "Add env p count = Inr (ReturnedReceiver, p1, out1)"
  using assms by (simp add: Add_def)

lemma Add_unfold_reach:
  assumes "Total p \<noteq> 0"
    and "updateProgress env (p\<lparr>Current := Current p + count\<rparr>) = Inr (p1, out1)"
    and "Total p1 \<le>s Current p1"
    and "updateProgress env (p1\<lparr>Total := Current p1\<rparr>) = Inr (p2, out2)"
    and "Stop p2 = Inr (p3, out3)"
  shows "Add env p count = Inr (ReturnedReceiver, p3, out1 @ out2 @ out3)"
  using assms by (simp add: Add_def)

lemma Add_below:
  assumes "Total p \<noteq> 0" and "atomicIsActive p \<noteq> None" and "atomicTitle p \<noteq> None"
    and "\<not> Total p \<le>s Current p + count"
  shows "\<exists>s p1.
           getString env (p\<lparr>Current := Current p + count\<rparr>) = Inr (s, p1) \<and>
           (\<exists>ts bs. p1 = p\<lparr>Current := Current p + count, TitleStyle := ts, BarStyle := bs\<rparr>) \<and>
           Add env p count = Inr (ReturnedReceiver, p1, [Fprinto (Writer p) s])"
proof -
  let ?q = "p\<lparr>Current := Current p + count\<rparr>"
  have "atomicIsActive ?q \<noteq> None" and "atomicTitle ?q \<noteq> None"
    using assms by simp_all
  then obtain s p1 where g: "getString env ?q = Inr (s, p1)"
    and u: "updateProgress env ?q = Inr (p1, [Fprinto (Writer ?q) s])"
    and f: "\<exists>ts bs. p1 = ?q\<lparr>TitleStyle := ts, BarStyle := bs\<rparr>"
    by (rule updateProgress_fields)
  from f have "Total p1 = Total p" and "Current p1 = Current p + count"
    by auto
  with assms(4) have "\<not> Total p1 \<le>s Current p1"
    by simp
  from Add_unfold_below [OF assms(1) u this]
  have "Add env p count = Inr (ReturnedReceiver, p1, [Fprinto (Writer p) s])"
    by simp
  with g f show ?thesis by blast
qed

lemma Add_reach:
  assumes "Total p \<noteq> 0" and "atomicIsActive p \<noteq> None" and "atomicTitle p \<noteq> None"
    and "Total p \<le>s Current p + count"
  shows "\<exists>s1 p1 s2 p2 p3 out3.
           getString env (p\<lparr>Current := Current p + count\<rparr>) = Inr (s1, p1) \<and>
           getString env (p1\<lparr>Total := Current p1\<rparr>) = Inr (s2, p2) \<and>
           (\<exists>ts bs. p2 = p\<lparr>Current := Current p + count, Total := Current p + count,
                           TitleStyle := ts, BarStyle := bs\<rparr>) \<and>
           Stop p2 = Inr (p3, out3) \<and>
           Add env p count =
             Inr (ReturnedReceiver, p3, [Fprinto (Writer p) s1, Fprinto (Writer p) s2] @ out3)"
proof -
  let ?q = "p\<lparr>Current := Current p + count\<rparr>"
  have "atomicIsActive ?q \<noteq> None" and "atomicTitle ?q \<noteq> None"
    using assms by simp_all
  then obtain s1 p1 where g1: "getString env ?q = Inr (s1, p1)"
    and u1: "updateProgress env ?q = Inr (p1, [Fprinto (Writer ?q) s1])"
    and f1: "\<exists>ts bs. p1 = ?q\<lparr>TitleStyle := ts, BarStyle := bs\<rparr>"
    by (rule updateProgress_fields)
  from f1 have p1: "Total p1 = Total p" "Current p1 = Current p + count" "Writer p1 = Writer p"
    "atomicIsActive p1 = atomicIsActive p" "atomicTitle p1 = atomicTitle p"
    by auto
  let ?r = "p1\<lparr>Total := Current p1\<rparr>"
  have "atomicIsActive ?r \<noteq> None" and "atomicTitle ?r \<noteq> None"
    using assms p1 by simp_all
  then obtain s2 p2 where g2: "getString env ?r = Inr (s2, p2)"
    and u2: "updateProgress env ?r = Inr (p2, [Fprinto (Writer ?r) s2])"
    and f2: "\<exists>ts bs. p2 = ?r\<lparr>TitleStyle := ts, BarStyle := bs\<rparr>"
    by (rule updateProgress_fields)
  from f2 obtain ts2 bs2 where "p2 = ?r\<lparr>TitleStyle := ts2, BarStyle := bs2\<rparr>"
    by blast
  moreover from f1 obtain ts1 bs1 where "p1 = ?q\<lparr>TitleStyle := ts1, BarStyle := bs1\<rparr>"
    by blast
  ultimately have "p2 = p\<lparr>Current := Current p + count, Total := Current p + count,
                           TitleStyle := ts2, BarStyle := bs2\<rparr>"
    by simp
  then have p2: "\<exists>ts bs. p2 = p\<lparr>Current := Current p + count, Total := Current p + count,
                           TitleStyle := ts, BarStyle := bs\<rparr>"
    by blast
  then have "atomicIsActive p2 = atomicIsActive p"
    by auto
  with assms(2) obtain a where "atomicIsActive p2 = Some a"
    by auto
  from Stop_initialised [OF this]
  obtain p3 out3 where st: "Stop p2 = Inr (p3, out3)"
    by blast
  from assms(4) p1 have "Total p1 \<le>s Current p1"
    by simp
  from Add_unfold_reach [OF assms(1) u1 this u2 st] p1
  have "Add env p count =
      Inr (ReturnedReceiver, p3, [Fprinto (Writer p) s1, Fprinto (Writer p) s2] @ out3)"
    by simp
  with g1 g2 p2 st show ?thesis by blast
qed


section \<open>\<^verbatim>\<open>Add\<close> on a bar without a total\<close>

text \<open>
  C3. For every count, \<^verbatim>\<open>Add(count)\<close> on a bar whose total is 0 returns nil, leaves
  every field of the bar as it was and has no effect on the world: nothing is written to
  the sink. This holds whether or not the atomics of the bar have been initialised.
\<close>

theorem Add_total_zero_is_noop:
  "Total p = 0 \<Longrightarrow> Add env p count = Inr (ReturnedNil, p, [])"
  by (simp add: Add_def)

theorem Add_total_zero_is_noop_witness:
  "Total zero_value = 0 \<and>
   Add (plain_terminal 80 0) zero_value 3 = Inr (ReturnedNil, zero_value, [])"
proof -
  have t: "Total zero_value = 0"
    by (simp add: zero_value_def)
  from Add_total_zero_is_noop [OF t, of "plain_terminal 80 0" 3] t show ?thesis
    by simp
qed


section \<open>Nil atomics\<close>
















section \<open>\<^verbatim>\<open>Stop\<close> twice\<close>

text \<open>
  C4, as the code has it. For every bar whose \<open>atomicIsActive\<close> is set, \<^verbatim>\<open>Stop\<close>
  returns, and a second \<^verbatim>\<open>Stop\<close> right after it returns without error, leaves the bar
  exactly as the first call left it, writes nothing to the sink and stops no task. It is
  not free of effects: it calls \<^verbatim>\<open>cursor.Show()\<close> again, which \<^verbatim>\<open>Stop\<close> does before it
  looks at the active flag.
\<close>

theorem second_Stop_only_shows_cursor:
  assumes "atomicIsActive p \<noteq> None"
  shows "\<exists>p1 out1. Stop p = Inr (p1, out1) \<and> Stop p1 = Inr (p1, [cursor_Show])"
proof -
  from assms obtain a where a: "atomicIsActive p = Some a"
    by auto
  define p1 where "p1 = p\<lparr>rerenderTask := (if rerenderTask p = Some True then Some False else rerenderTask p),
                  IsActive := (if a then False else IsActive p),
                  atomicIsActive := Some False\<rparr>"
  from Stop_initialised [OF a] obtain out1 where s1: "Stop p = Inr (p1, out1)"
    unfolding p1_def by blast
  have f: "atomicIsActive p1 = Some False" "rerenderTask p1 \<noteq> Some True"
    by (simp_all add: p1_def)
  then have "Stop p1 = Inr (p1, [cursor_Show])"
    by (simp add: Stop_def)
  with s1 show ?thesis by blast
qed

theorem second_Stop_only_shows_cursor_witness:
  "atomicIsActive (started_bar 2) \<noteq> None \<and>
   (\<exists>p1 out1. Stop (started_bar 2) = Inr (p1, out1) \<and> Stop p1 = Inr (p1, [cursor_Show]))"
proof -
  have h: "atomicIsActive (started_bar 2) \<noteq> None"
    by (simp add: started_bar_def)
  from second_Stop_only_shows_cursor [OF h] h show ?thesis
    by blast
qed

text \<open>
  C4, as the claim states it, fails: the second \<^verbatim>\<open>Stop\<close> on the started bar performs a
  cursor action.
\<close>

theorem Stop_twice_shows_cursor_again:
  "Stop (started_bar 2) =
     Inr ((started_bar 2)\<lparr>IsActive := False, atomicIsActive := Some False\<rparr>,
          [cursor_Show, Fprintln None []]) \<and>
   Stop ((started_bar 2)\<lparr>IsActive := False, atomicIsActive := Some False\<rparr>) =
     Inr ((started_bar 2)\<lparr>IsActive := False, atomicIsActive := Some False\<rparr>, [cursor_Show]) \<and>
   [cursor_Show] \<noteq> []"
  by (simp add: Stop_def started_bar_def)

section \<open>\<open>Current\<close> under \<^verbatim>\<open>Add\<close>\<close>

lemma sint_add_go_int:
  fixes a b :: go_int
  assumes "- (2 ^ 63) \<le> sint a + sint b" and "sint a + sint b < 2 ^ 63"
  shows "sint (a + b) = sint a + sint b"
  using assms by (simp add: sint_word_add signed_take_bit_int_eq_self)

lemma sint_go_int_range:
  fixes a :: go_int
  shows "- (2 ^ 63) \<le> sint a" and "sint a < 2 ^ 63"
  using sint_ge [of a] sint_lt [of a] by simp_all






section \<open>The arithmetic of the layout\<close>

lemma sint_diff_go_int:
  fixes a b :: go_int
  assumes "- (2 ^ 63) \<le> sint a - sint b" and "sint a - sint b < 2 ^ 63"
  shows "sint (a - b) = sint a - sint b"
  using assms by (simp add: sint_word_diff signed_take_bit_int_eq_self)

lemma sint_mult_go_int:
  fixes a b :: go_int
  assumes "- (2 ^ 63) \<le> sint a * sint b" and "sint a * sint b < 2 ^ 63"
  shows "sint (a * b) = sint a * sint b"
  using assms by (simp add: sint_word_mult signed_take_bit_int_eq_self)

lemma go_div_eq: "sgn (sint a) * sgn (sint b) * (\<bar>sint a\<bar> div \<bar>sint b\<bar>) = q \<Longrightarrow> go_div a b = word_of_int q"
  by (simp add: go_div_def)

lemma sint_word_of_int_go_int:
  "- (2 ^ 63) \<le> q \<Longrightarrow> q < 2 ^ 63 \<Longrightarrow> sint (word_of_int q :: go_int) = q"
  by (simp add: sint_sbintrunc' signed_take_bit_int_eq_self)

lemma sint_go_len: "length s < 2 ^ 63 \<Longrightarrow> sint (go_len s) = int (length s)"
proof -
  assume a: "length s < 2 ^ 63"
  have "sint (word_of_int (int (length s)) :: go_int) = int (length s)"
    by (rule sint_word_of_int_go_int) (use a in simp_all)
  moreover have "(word_of_int (int (length s)) :: go_int) = go_len s"
    by (simp add: go_len_def)
  ultimately show ?thesis
    by (simp only:)
qed

lemma tdiv_nonneg:
  fixes x y :: int
  assumes "0 \<le> x" and "0 < y"
  shows "sgn x * sgn y * (\<bar>x\<bar> div \<bar>y\<bar>) = x div y"
proof (cases "x = 0")
  case True
  then show ?thesis by simp
next
  case False
  with assms have "0 < x" by linarith
  with assms show ?thesis by simp
qed

lemma div_nonneg_bounds:
  fixes x y :: int
  assumes "0 \<le> x" and "0 < y" and "x < 2 ^ 63"
  shows "- (2 ^ 63) \<le> x div y" and "x div y < 2 ^ 63"
proof -
  have q1: "0 \<le> x div y"
    using assms by (simp add: pos_imp_zdiv_nonneg_iff)
  have q2: "x div y \<le> x"
    using zdiv_mono2 [of x 1 y] assms by simp
  show "- (2 ^ 63) \<le> x div y"
    using q1 by simp
  show "x div y < 2 ^ 63"
    using q2 assms(3) by linarith
qed

lemma sint_go_div_nonneg:
  assumes "0 \<le> sint a" and "0 < sint b"
  shows "sint (go_div a b) = sint a div sint b"
proof -
  have "go_div a b = word_of_int (sint a div sint b)"
    by (rule go_div_eq) (rule tdiv_nonneg [OF assms])
  moreover have "sint (word_of_int (sint a div sint b) :: go_int) = sint a div sint b"
    by (rule sint_word_of_int_go_int)
       (rule div_nonneg_bounds [OF assms sint_go_int_range(2)])+
  ultimately show ?thesis
    by (simp only:)
qed


lemma layout_restyle:
  assumes "style_of ts = style_of (TitleStyle p)" and "style_of bs = style_of (BarStyle p)"
  shows "width env (p\<lparr>TitleStyle := ts, BarStyle := bs\<rparr>) = width env p"
    and "before env (p\<lparr>TitleStyle := ts, BarStyle := bs\<rparr>) = before env p"
    and "after env (p\<lparr>TitleStyle := ts, BarStyle := bs\<rparr>) = after env p"
    and "barMaxLength env (p\<lparr>TitleStyle := ts, BarStyle := bs\<rparr>) = barMaxLength env p"
    and "barCurrentLength env (p\<lparr>TitleStyle := ts, BarStyle := bs\<rparr>) = barCurrentLength env p"
    and "barFiller env (p\<lparr>TitleStyle := ts, BarStyle := bs\<rparr>) = barFiller env p"
    and "bar env (p\<lparr>TitleStyle := ts, BarStyle := bs\<rparr>) = bar env p"
proof -
  let ?q = "p\<lparr>TitleStyle := ts, BarStyle := bs\<rparr>"
  show w: "width env ?q = width env p"
    by (simp add: width_def)
  show b: "before env ?q = before env p"
    using assms(1) by (simp add: before_def)
  show a: "after env ?q = after env p"
    by (simp add: after_def parseElapsedTime_def GetElapsedTime_def)
  show m: "barMaxLength env ?q = barMaxLength env p"
    by (simp add: barMaxLength_def w b a)
  show c: "barCurrentLength env ?q = barCurrentLength env p"
    by (simp add: barCurrentLength_def m)
  show f: "barFiller env ?q = barFiller env p"
    by (simp add: barFiller_def m c)
  show "bar env ?q = bar env p"
    using assms(2) by (simp add: bar_def c f)
qed

lemma getString_active:
  assumes "atomicIsActive p = Some True" and "atomicTitle p \<noteq> None" and "Total p \<noteq> 0"
  shows "\<exists>p2. getString env p = Inr (before env p @ bar env p @ after env p, p2)"
proof -
  define ts where "ts = (if TitleStyle p = None then Some NewStyle else TitleStyle p)"
  define bs where "bs = (if BarStyle p = None then Some NewStyle else BarStyle p)"
  define p2 where "p2 = p\<lparr>TitleStyle := ts, BarStyle := bs\<rparr>"
  have st: "style_of ts = style_of (TitleStyle p)" "style_of bs = style_of (BarStyle p)"
    by (simp_all add: ts_def bs_def style_of_def)
  have "getString env p = Inr (before env p2 @ bar env p2 @ after env p2, p2)"
    using assms by (auto simp: getString_def Let_def p2_def ts_def bs_def)
  then show ?thesis
    unfolding p2_def by (simp add: layout_restyle [OF st])
qed


lemma barMaxLength_room:
  assumes "int (length (RemoveColorFromString env (before env p))) +
           int (length (RemoveColorFromString env (after env p))) + 1 \<le> sint (width env p)"
  shows "sint (barMaxLength env p) =
           sint (width env p) - int (length (RemoveColorFromString env (before env p)))
             - int (length (RemoveColorFromString env (after env p))) - 1"
proof -
  define w where "w = width env p"
  define b where "b = RemoveColorFromString env (before env p)"
  define a where "a = RemoveColorFromString env (after env p)"
  have room: "int (length b) + int (length a) + 1 \<le> sint w"
    using assms by (simp add: w_def b_def a_def)
  have wr: "sint w < 2 ^ 63"
    by (rule sint_go_int_range)
  have "int (length b) < 2 ^ 63" and "int (length a) < 2 ^ 63"
    using room wr by linarith+
  then have "length b < 2 ^ 63" and "length a < 2 ^ 63"
    by simp_all
  then have lb: "sint (go_len b) = int (length b)" and la: "sint (go_len a) = int (length a)"
    by (simp_all add: sint_go_len)
  have s1: "sint (w - go_len b) = sint w - int (length b)"
  proof -
    have "- (2 ^ 63) \<le> sint w - sint (go_len b)" "sint w - sint (go_len b) < 2 ^ 63"
      using room wr lb by simp_all
    from sint_diff_go_int [OF this] lb show ?thesis by simp
  qed
  have s2: "sint (w - go_len b - go_len a) = sint w - int (length b) - int (length a)"
  proof -
    have "- (2 ^ 63) \<le> sint (w - go_len b) - sint (go_len a)"
      "sint (w - go_len b) - sint (go_len a) < 2 ^ 63"
      using room wr la s1 by simp_all
    from sint_diff_go_int [OF this] la s1 show ?thesis by simp
  qed
  have s3: "sint (w - go_len b - go_len a - 1) = sint w - int (length b) - int (length a) - 1"
  proof -
    have "- (2 ^ 63) \<le> sint (w - go_len b - go_len a) - sint (1 :: go_int)"
      "sint (w - go_len b - go_len a) - sint (1 :: go_int) < 2 ^ 63"
      using room wr s2 by simp_all
    from sint_diff_go_int [OF this] s2 show ?thesis by simp
  qed
  then show ?thesis
    by (simp add: barMaxLength_def w_def b_def a_def)
qed

lemma barCurrentLength_floor:
  assumes "0 < sint (Total p)" and "0 \<le> sint (Current p)" and "0 \<le> sint (barMaxLength env p)"
    and "sint (Current p) * sint (barMaxLength env p) < 2 ^ 63"
  shows "sint (barCurrentLength env p) =
           (sint (Current p) * sint (barMaxLength env p)) div sint (Total p)"
proof -
  have nn: "0 \<le> sint (Current p) * sint (barMaxLength env p)"
    using assms(2,3) by simp
  then have "- (2 ^ 63) \<le> sint (Current p) * sint (barMaxLength env p)"
    by simp
  from sint_mult_go_int [OF this assms(4)]
  have m: "sint (Current p * barMaxLength env p) = sint (Current p) * sint (barMaxLength env p)" .
  with nn have "0 \<le> sint (Current p * barMaxLength env p)"
    by simp
  from sint_go_div_nonneg [OF this assms(1)] m show ?thesis
    by (simp add: barCurrentLength_def)
qed

lemma quotient_le_factor:
  fixes c m t :: int
  assumes "0 \<le> c" and "c \<le> t" and "0 < t" and "0 \<le> m"
  shows "0 \<le> (c * m) div t" and "(c * m) div t \<le> m"
proof -
  show "0 \<le> (c * m) div t"
    using assms by (simp add: pos_imp_zdiv_nonneg_iff)
  have "c * m \<le> t * m"
    using assms by (simp add: mult_right_mono)
  then have "(c * m) div t \<le> (t * m) div t"
    using assms(3) by (rule zdiv_mono1)
  then show "(c * m) div t \<le> m"
    using assms(3) by simp
qed

lemma vis_replicate:
  assumes sub: "\<forall>a b. vis (a @ b) \<le> vis a + vis b" and one: "vis s \<le> (1 :: nat)"
  shows "vis (concat (replicate (Suc n) s)) \<le> Suc n"
proof (induction n)
  case 0
  from one show ?case by simp
next
  case (Suc n)
  have "vis (concat (replicate (Suc (Suc n)) s)) = vis (s @ concat (replicate (Suc n) s))"
    by simp
  also have "\<dots> \<le> vis s + vis (concat (replicate (Suc n) s))"
    using sub by blast
  also have "\<dots> \<le> 1 + Suc n"
    using one Suc.IH by linarith
  finally show ?case by simp
qed

lemma vis_Repeat:
  assumes sub: "\<forall>a b. vis (a @ b) \<le> vis a + vis b" and one: "vis s \<le> (1 :: nat)"
    and pos: "0 < sint n"
  shows "int (vis (Repeat s n)) \<le> sint n"
proof -
  from pos obtain k where k: "nat (sint n) = Suc k"
    by (metis Suc_pred zero_less_nat_eq)
  from vis_replicate [OF sub one, of k] have "vis (Repeat s n) \<le> nat (sint n)"
    by (simp add: Repeat_def k)
  with pos show ?thesis by linarith
qed


lemma vis_bar:
  assumes sub: "\<forall>a b. vis (a @ b) \<le> vis a + vis b"
    and sty: "\<forall>st s. vis (Style_Sprint env st s) \<le> vis s"
    and cells: "vis (BarCharacter p) \<le> (1 :: nat)" "vis (LastCharacter p) \<le> 1" "vis (BarFiller p) \<le> 1"
    and l0: "0 \<le> sint (barCurrentLength env p)"
    and lm: "sint (barCurrentLength env p) \<le> sint (barMaxLength env p)"
  shows "bar env p = [] \<or> int (vis (bar env p)) \<le> sint (barMaxLength env p) + 1"
proof -
  define m where "m = barMaxLength env p"
  define l where "l = barCurrentLength env p"
  have d: "sint (m - l) = sint m - sint l"
  proof -
    have "- (2 ^ 63) \<le> sint m - sint l" "sint m - sint l < 2 ^ 63"
      using l0 lm sint_go_int_range(2) [of m] by (simp_all add: m_def l_def)
    then show ?thesis by (rule sint_diff_go_int)
  qed
  have filler: "barFiller env p = [] \<or> int (vis (barFiller env p)) \<le> sint m - sint l"
  proof (cases "0 <s m - l")
    case True
    then have pos: "0 < sint (m - l)"
      by (simp add: word_sless_alt)
    from vis_Repeat [OF sub cells(3) pos] d True show ?thesis
      by (simp add: barFiller_def m_def l_def)
  next
    case False
    then show ?thesis
      by (simp add: barFiller_def m_def l_def)
  qed
  show ?thesis
  proof (cases "0 <s l")
    case False
    then have "bar env p = barFiller env p"
      by (simp add: bar_def l_def)
    with filler l0 show ?thesis
      by (auto simp: m_def l_def)
  next
    case True
    then have pos: "0 < sint l"
      by (simp add: word_sless_alt)
    define run where "run = Repeat (BarCharacter p) l @ LastCharacter p"
    define x where "x = Style_Sprint env (style_of (BarStyle p)) run"
    have "vis run \<le> vis (Repeat (BarCharacter p) l) + vis (LastCharacter p)"
      unfolding run_def using sub by blast
    with vis_Repeat [OF sub cells(1) pos] cells(2) have "int (vis run) \<le> sint l + 1"
      by linarith
    moreover have "vis x \<le> vis run"
      unfolding x_def using sty by blast
    ultimately have x: "int (vis x) \<le> sint l + 1"
      by linarith
    have b: "bar env p = x @ barFiller env p"
      using True by (simp add: bar_def l_def x_def run_def)
    show ?thesis
    proof (cases "barFiller env p = []")
      case True
      with b x lm show ?thesis
        by (simp add: m_def l_def)
    next
      case False
      with filler have f: "int (vis (barFiller env p)) \<le> sint m - sint l"
        by simp
      have "vis (bar env p) \<le> vis x + vis (barFiller env p)"
        unfolding b using sub by blast
      with x f show ?thesis
        by (simp add: m_def)
    qed
  qed
qed

section \<open>The rendered line and the width\<close>

text \<open>
  C2, as the code has it. Let \<open>vis\<close> measure the visible length of a string: any measure
  that is subadditive over concatenation, never more than the byte length of the stripped
  string (which is what \<^verbatim>\<open>getString\<close> itself counts) and not increased by styling.
  For an active bar with total \<open>> 0\<close> and \<open>0 \<le> current \<le> total\<close>, the line that
  \<^verbatim>\<open>getString\<close> returns is at most as long as the effective width, provided that
  \<^item> the effective width leaves room for the stripped prefix, the stripped suffix and one
    more cell (\<open>barMaxLength\<close> is not negative),
  \<^item> the bar character, the last character and the filler each measure at most one cell,
  \<^item> \<open>current\<close> times the width does not overflow \<^verbatim>\<open>int\<close>.
  Nothing in \<^verbatim>\<open>getString\<close> shortens a prefix and suffix that are wider than the terminal.
\<close>

theorem render_fits_width_when_there_is_room:
  assumes active: "atomicIsActive p = Some True" and title: "atomicTitle p \<noteq> None"
    and total: "0 < sint (Total p)"
    and current: "0 \<le> sint (Current p)" "sint (Current p) \<le> sint (Total p)"
    and sub: "\<forall>a b. vis (a @ b) \<le> vis a + vis b"
    and bytes: "\<forall>s. vis s \<le> length (RemoveColorFromString env s)"
    and sty: "\<forall>st s. vis (Style_Sprint env st s) \<le> vis s"
    and cells: "vis (BarCharacter p) \<le> 1" "vis (LastCharacter p) \<le> 1" "vis (BarFiller p) \<le> 1"
    and room: "int (length (RemoveColorFromString env (before env p))) +
               int (length (RemoveColorFromString env (after env p))) + 1 \<le> sint (width env p)"
    and no_overflow: "sint (Current p) * sint (width env p) < 2 ^ 63"
  shows "\<exists>s p1. getString env p = Inr (s, p1) \<and> int (vis s) \<le> sint (width env p)"
proof -
  define B where "B = int (length (RemoveColorFromString env (before env p)))"
  define A where "A = int (length (RemoveColorFromString env (after env p)))"
  define W where "W = sint (width env p)"
  define M where "M = sint (barMaxLength env p)"
  have M: "M = W - B - A - 1"
    using barMaxLength_room [OF room] by (simp add: M_def W_def B_def A_def)
  have M0: "0 \<le> M" and MW: "M \<le> W"
    using room M by (simp_all add: W_def B_def A_def)
  have "sint (Current p) * M \<le> sint (Current p) * W"
    using MW current(1) by (rule mult_left_mono)
  with no_overflow have "sint (Current p) * M < 2 ^ 63"
    by (simp add: W_def)
  then have L: "sint (barCurrentLength env p) = (sint (Current p) * M) div sint (Total p)"
    using barCurrentLength_floor [OF total current(1), of env] M0 by (simp add: M_def)
  from quotient_le_factor [OF current total M0] L
  have l0: "0 \<le> sint (barCurrentLength env p)"
    and lm: "sint (barCurrentLength env p) \<le> sint (barMaxLength env p)"
    by (simp_all add: M_def)
  from vis_bar [OF sub sty cells l0 lm]
  have bar: "bar env p = [] \<or> int (vis (bar env p)) \<le> M + 1"
    by (simp add: M_def)
  have vb: "int (vis (before env p)) \<le> B" and va: "int (vis (after env p)) \<le> A"
    using bytes by (simp_all add: B_def A_def)
  have fit: "int (vis (before env p @ bar env p @ after env p)) \<le> W"
  proof (cases "bar env p = []")
    case True
    have "vis (before env p @ after env p) \<le> vis (before env p) + vis (after env p)"
      using sub by blast
    with vb va M M0 True show ?thesis
      by simp
  next
    case False
    with bar have b: "int (vis (bar env p)) \<le> M + 1"
      by simp
    have "vis (before env p @ bar env p @ after env p) \<le>
            vis (before env p) + vis (bar env p @ after env p)"
      using sub by blast
    moreover have "vis (bar env p @ after env p) \<le> vis (bar env p) + vis (after env p)"
      using sub by blast
    ultimately show ?thesis
      using vb va b M by linarith
  qed
  from total have "Total p \<noteq> 0"
    by auto
  from getString_active [OF active title this, of env] fit show ?thesis
    by (auto simp: W_def)
qed


text \<open>
  The theorem on the plain terminal of 40 columns, where the visible length is the length:
  the frame of the started bar at 3 of 5 fills the 40 columns exactly.
\<close>

theorem render_fits_width_when_there_is_room_witness:
  "atomicIsActive (started_bar 3) = Some True \<and> atomicTitle (started_bar 3) \<noteq> None \<and>
   0 < sint (Total (started_bar 3)) \<and>
   0 \<le> sint (Current (started_bar 3)) \<and> sint (Current (started_bar 3)) \<le> sint (Total (started_bar 3)) \<and>
   (\<forall>a b :: string. length (a @ b) \<le> length a + length b) \<and>
   (\<forall>s. length s \<le> length (RemoveColorFromString (plain_terminal 40 0) s)) \<and>
   (\<forall>st s. length (Style_Sprint (plain_terminal 40 0) st s) \<le> length s) \<and>
   length (BarCharacter (started_bar 3)) \<le> 1 \<and> length (LastCharacter (started_bar 3)) \<le> 1 \<and>
   length (BarFiller (started_bar 3)) \<le> 1 \<and>
   int (length (RemoveColorFromString (plain_terminal 40 0) (before (plain_terminal 40 0) (started_bar 3)))) +
     int (length (RemoveColorFromString (plain_terminal 40 0) (after (plain_terminal 40 0) (started_bar 3)))) + 1
     \<le> sint (width (plain_terminal 40 0) (started_bar 3)) \<and>
   sint (Current (started_bar 3)) * sint (width (plain_terminal 40 0) (started_bar 3)) < 2 ^ 63 \<and>
   (\<exists>s p1. getString (plain_terminal 40 0) (started_bar 3) = Inr (s, p1) \<and>
      int (length s) \<le> sint (width (plain_terminal 40 0) (started_bar 3))) \<and>
   getString (plain_terminal 40 0) (started_bar 3) =
     Inr (''Copying [3/5] ===========>--------  60% '', started_bar 3) \<and>
   length ''Copying [3/5] ===========>--------  60% '' = 40"
proof -
  have h1: "atomicIsActive (started_bar 3) = Some True" and h2: "atomicTitle (started_bar 3) \<noteq> None"
    and h3: "0 < sint (Total (started_bar 3))"
    and h4: "0 \<le> sint (Current (started_bar 3))"
    and h5: "sint (Current (started_bar 3)) \<le> sint (Total (started_bar 3))"
    and h9: "length (BarCharacter (started_bar 3)) \<le> 1"
    and h10: "length (LastCharacter (started_bar 3)) \<le> 1"
    and h11: "length (BarFiller (started_bar 3)) \<le> 1"
    by (simp_all add: started_bar_def)
  have h6: "\<forall>a b :: string. length (a @ b) \<le> length a + length b"
    by simp
  have h7: "\<forall>s. length s \<le> length (RemoveColorFromString (plain_terminal 40 0) s)"
    by (simp add: plain_terminal_def)
  have h8: "\<forall>st s. length (Style_Sprint (plain_terminal 40 0) st s) \<le> length s"
    by (simp add: plain_terminal_def)
  have h12: "int (length (RemoveColorFromString (plain_terminal 40 0) (before (plain_terminal 40 0) (started_bar 3)))) +
     int (length (RemoveColorFromString (plain_terminal 40 0) (after (plain_terminal 40 0) (started_bar 3)))) + 1
     \<le> sint (width (plain_terminal 40 0) (started_bar 3))"
    by code_simp
  have h13: "sint (Current (started_bar 3)) * sint (width (plain_terminal 40 0) (started_bar 3)) < 2 ^ 63"
    by code_simp
  have c: "\<exists>s p1. getString (plain_terminal 40 0) (started_bar 3) = Inr (s, p1) \<and>
      int (length s) \<le> sint (width (plain_terminal 40 0) (started_bar 3))"
    by (rule render_fits_width_when_there_is_room [OF h1 h2 h3 h4 h5 h6 h7 h8 h9 h10 h11 h12 h13])
  have e: "getString (plain_terminal 40 0) (started_bar 3) =
     Inr (''Copying [3/5] ===========>--------  60% '', started_bar 3)"
    by code_simp
  have l: "length ''Copying [3/5] ===========>--------  60% '' = 40"
    by simp
  from h1 h2 h3 h4 h5 h6 h7 h8 h9 h10 h11 h12 h13 c e l show ?thesis
    by (intro conjI)
qed

text \<open>
  C2, as the claim states it, fails. On a terminal of 12 columns the prefix and the suffix
  of the started bar at 1 of 5 take 20 columns by themselves, and \<^verbatim>\<open>getString\<close>
  returns them whole. On a terminal of 40 columns a bar character of two bytes makes the
  line 51 bytes long. On a terminal of 41 columns the complete bar of \<open>2\<^sup>6\<^sup>2\<close> steps,
  whose product \<open>Current * barMaxLength\<close> wraps around to a negative number, is drawn
  as 28 fillers where 26 have room, 42 columns in all.
\<close>

theorem render_exceeds_narrow_terminal:
  "atomicIsActive (started_bar 1) = Some True \<and>
   0 <s Total (started_bar 1) \<and> 0 \<le>s Current (started_bar 1) \<and>
   Current (started_bar 1) \<le>s Total (started_bar 1) \<and>
   sint (width (plain_terminal 12 0) (started_bar 1)) = 12 \<and>
   getString (plain_terminal 12 0) (started_bar 1) =
     Inr (''Copying [1/5]   20% '', started_bar 1) \<and>
   length (RemoveColorFromString (plain_terminal 12 0) ''Copying [1/5]   20% '') = 20 \<and>
   sint (width (plain_terminal 40 0) ((started_bar 3)\<lparr>BarCharacter := ''==''\<rparr>)) = 40 \<and>
   getString (plain_terminal 40 0) ((started_bar 3)\<lparr>BarCharacter := ''==''\<rparr>) =
     Inr (''Copying [3/5] ======================>--------  60% '',
          (started_bar 3)\<lparr>BarCharacter := ''==''\<rparr>) \<and>
   length (RemoveColorFromString (plain_terminal 40 0)
             ''Copying [3/5] ======================>--------  60% '') = 51 \<and>
   0 \<le>s Current huge_bar \<and> Current huge_bar \<le>s Total huge_bar \<and>
   sint (width (plain_terminal 41 0) huge_bar) = 41 \<and>
   getString (plain_terminal 41 0) huge_bar =
     Inr (''Copying ---------------------------- 100% '', huge_bar) \<and>
   length (RemoveColorFromString (plain_terminal 41 0)
             ''Copying ---------------------------- 100% '') = 42"
  by code_simp

section \<open>Frames past the total\<close>

text \<open>
  C5. The claim asks that no frame shows more than 100% and that every render during
  \<^verbatim>\<open>Add\<close> happens with current \<open>\<le>\<close> total. \<^verbatim>\<open>Add\<close> renders once before it compares
  \<open>Current\<close> with \<open>Total\<close>: on the started bar at 4 of 5, \<^verbatim>\<open>Add(3)\<close> first writes
  the frame of the bar at 7 of 5, whose filled run of 26 characters is longer than the 19
  that the bar may take and whose percentage is 140, and only then sets the total to 7
  and writes the frame at 7 of 7.
\<close>

theorem Add_past_total_renders_before_clamping:
  "Add (plain_terminal 40 0) (started_bar 4) 3 =
     Inr (ReturnedReceiver,
          (started_bar 7)\<lparr>Total := 7, IsActive := False, atomicIsActive := Some False\<rparr>,
          [Fprinto None ''Copying [7/5] ==========================> 140% '',
           Fprinto None ''Copying [7/7] ===================> 100% '',
           cursor_Show, Fprintln None []]) \<and>
   getString (plain_terminal 40 0) ((started_bar 4)\<lparr>Current := Current (started_bar 4) + 3\<rparr>) =
     Inr (''Copying [7/5] ==========================> 140% '', started_bar 7) \<and>
   Total (started_bar 7) <s Current (started_bar 7) \<and>
   sint (barMaxLength (plain_terminal 40 0) (started_bar 7)) = 19 \<and>
   sint (barCurrentLength (plain_terminal 40 0) (started_bar 7)) = 26 \<and>
   sint (PercentageRound (plain_terminal 40 0) (Total (started_bar 7)) (Current (started_bar 7))) = 140"
  by code_simp


section \<open>The filled length\<close>

lemma getString_styles:
  assumes "getString env p = Inr (s, p1)"
  shows "style_of (TitleStyle p1) = style_of (TitleStyle p)"
    and "style_of (BarStyle p1) = style_of (BarStyle p)"
  using assms
  by (auto simp: getString_def Let_def style_of_def split: option.splits if_splits)

lemma layout_cong:
  assumes "MaxWidth q = MaxWidth p" and "ShowTitle q = ShowTitle p"
    and "style_of (TitleStyle q) = style_of (TitleStyle p)" and "atomicTitle q = atomicTitle p"
    and "ShowCount q = ShowCount p" and "Total q = Total p" and "Current q = Current p"
    and "ShowPercentage q = ShowPercentage p" and "ShowElapsedTime q = ShowElapsedTime p"
    and "startedAt q = startedAt p"
    and "ElapsedTimeRoundingFactor q = ElapsedTimeRoundingFactor p"
  shows "barMaxLength env q = barMaxLength env p"
    and "barCurrentLength env q = barCurrentLength env p"
proof -
  have w: "width env q = width env p"
    using assms by (simp add: width_def)
  have b: "before env q = before env p"
    using assms by (simp add: before_def)
  have a: "after env q = after env p"
    using assms by (simp add: after_def parseElapsedTime_def GetElapsedTime_def)
  show m: "barMaxLength env q = barMaxLength env p"
    by (simp add: barMaxLength_def w b a)
  show "barCurrentLength env q = barCurrentLength env p"
    using assms by (simp add: barCurrentLength_def m)
qed


lemma sint_inject_go_int:
  fixes a b :: go_int
  assumes "sint a = sint b"
  shows "a = b"
proof -
  have "a = word_of_int (sint a)" by simp
  also have "\<dots> = word_of_int (sint b)" using assms by simp
  also have "\<dots> = b" by simp
  finally show ?thesis .
qed

lemma Add_one_layout:
  assumes init: "initialised p" and nonneg: "0 \<le> sint (Current p)"
    and below: "sint (Current p) < sint (Total p)"
  shows "\<exists>p1 out. Add env p 1 = Inr (ReturnedReceiver, p1, out) \<and>
           Total p1 = Total p \<and> sint (Current p1) = sint (Current p) + 1 \<and>
           (\<forall>e. barMaxLength e p1 = barMaxLength e (p\<lparr>Current := Current p + 1\<rparr>)) \<and>
           (\<forall>e. barCurrentLength e p1 = barCurrentLength e (p\<lparr>Current := Current p + 1\<rparr>))"
proof -
  let ?q = "p\<lparr>Current := Current p + 1\<rparr>"
  from init have a: "atomicIsActive p \<noteq> None" and t: "atomicTitle p \<noteq> None"
    by (simp_all add: initialised_def)
  have c1: "sint (Current p + 1) = sint (Current p) + 1"
  proof -
    have "- (2 ^ 63) \<le> sint (Current p) + sint (1 :: go_int)"
      using sint_go_int_range(1) [of "Current p"] by simp
    moreover have "sint (Current p) + sint (1 :: go_int) < 2 ^ 63"
      using below sint_go_int_range(2) [of "Total p"] by simp
    ultimately have "sint (Current p + 1) = sint (Current p) + sint (1 :: go_int)"
      by (rule sint_add_go_int)
    then show ?thesis by simp
  qed
  have nz: "Total p \<noteq> 0"
    using nonneg below by auto
  show ?thesis
  proof (cases "Total p \<le>s Current p + 1")
    case False
    from Add_below [OF nz a t False, of env]
    obtain s1 p1 ts bs
      where g: "getString env ?q = Inr (s1, p1)"
        and p1: "p1 = p\<lparr>Current := Current p + 1, TitleStyle := ts, BarStyle := bs\<rparr>"
        and ad: "Add env p 1 = Inr (ReturnedReceiver, p1, [Fprinto (Writer p) s1])"
      by blast
    from getString_styles(1) [OF g] have st: "style_of (TitleStyle p1) = style_of (TitleStyle ?q)" .
    have f: "MaxWidth p1 = MaxWidth ?q" "ShowTitle p1 = ShowTitle ?q" "atomicTitle p1 = atomicTitle ?q"
      "ShowCount p1 = ShowCount ?q" "Total p1 = Total ?q" "Current p1 = Current ?q"
      "ShowPercentage p1 = ShowPercentage ?q" "ShowElapsedTime p1 = ShowElapsedTime ?q"
      "startedAt p1 = startedAt ?q" "ElapsedTimeRoundingFactor p1 = ElapsedTimeRoundingFactor ?q"
      by (simp_all add: p1)
    have m: "\<forall>e. barMaxLength e p1 = barMaxLength e ?q"
      using layout_cong(1) [OF f(1,2) st f(3-10)] by blast
    have l: "\<forall>e. barCurrentLength e p1 = barCurrentLength e ?q"
      using layout_cong(2) [OF f(1,2) st f(3-10)] by blast
    have "Total p1 = Total p" and "sint (Current p1) = sint (Current p) + 1"
      using c1 by (simp_all add: p1)
    with ad m l show ?thesis by blast
  next
    case True
    then have "sint (Total p) \<le> sint (Current p) + 1"
      using c1 by (simp add: word_sle_eq)
    with below c1 have "sint (Total p) = sint (Current p + 1)"
      by linarith
    then have eq: "Total p = Current p + 1"
      by (rule sint_inject_go_int)
    from Add_reach [OF nz a t True, of env]
    obtain s1 p1 s2 p2 p3 out3 ts bs
      where g1: "getString env ?q = Inr (s1, p1)"
        and g2: "getString env (p1\<lparr>Total := Current p1\<rparr>) = Inr (s2, p2)"
        and p2: "p2 = p\<lparr>Current := Current p + 1, Total := Current p + 1,
                        TitleStyle := ts, BarStyle := bs\<rparr>"
        and st: "Stop p2 = Inr (p3, out3)"
        and ad: "Add env p 1 =
                   Inr (ReturnedReceiver, p3, [Fprinto (Writer p) s1, Fprinto (Writer p) s2] @ out3)"
      by blast
    obtain b where "atomicIsActive p2 = Some b"
      using a p2 by auto
    from Stop_initialised [OF this] st
    have p3: "p3 = p2\<lparr>rerenderTask := (if rerenderTask p2 = Some True then Some False else rerenderTask p2),
                  IsActive := (if b then False else IsActive p2),
                  atomicIsActive := Some False\<rparr>"
      by simp
    have "style_of (TitleStyle p2) = style_of (TitleStyle (p1\<lparr>Total := Current p1\<rparr>))"
      by (rule getString_styles(1) [OF g2])
    also have "\<dots> = style_of (TitleStyle p1)"
      by simp
    also have "\<dots> = style_of (TitleStyle ?q)"
      by (rule getString_styles(1) [OF g1])
    finally have sty: "style_of (TitleStyle p3) = style_of (TitleStyle ?q)"
      by (simp add: p3)
    have f: "MaxWidth p3 = MaxWidth ?q" "ShowTitle p3 = ShowTitle ?q" "atomicTitle p3 = atomicTitle ?q"
      "ShowCount p3 = ShowCount ?q" "Total p3 = Total ?q" "Current p3 = Current ?q"
      "ShowPercentage p3 = ShowPercentage ?q" "ShowElapsedTime p3 = ShowElapsedTime ?q"
      "startedAt p3 = startedAt ?q" "ElapsedTimeRoundingFactor p3 = ElapsedTimeRoundingFactor ?q"
      using eq by (simp_all add: p3 p2)
    have m: "\<forall>e. barMaxLength e p3 = barMaxLength e ?q"
      using layout_cong(1) [OF f(1,2) sty f(3-10)] by blast
    have l: "\<forall>e. barCurrentLength e p3 = barCurrentLength e ?q"
      using layout_cong(2) [OF f(1,2) sty f(3-10)] by blast
    have "Total p3 = Total p" and "sint (Current p3) = sint (Current p) + 1"
      using c1 eq by (simp_all add: p3 p2)
    with ad m l show ?thesis by blast
  qed
qed


lemma bar_filled_run:
  assumes "0 < sint (barCurrentLength env p)"
  shows "bar env p =
           Style_Sprint env (style_of (BarStyle p))
             (concat (replicate (nat (sint (barCurrentLength env p))) (BarCharacter p)) @
              LastCharacter p) @ barFiller env p"
  using assms by (simp add: bar_def Repeat_def word_sless_alt)

text \<open>
  C6, as the code has it. \<open>barCurrentLength\<close> is the quotient of
  \<open>Current * barMaxLength\<close> by \<open>Total\<close>, truncated toward zero. For total \<open>> 0\<close>,
  current \<open>\<ge> 0\<close> and \<open>barMaxLength \<ge> 0\<close>, with a product that does not overflow
  \<^verbatim>\<open>int\<close>, that is \<open>floor(current * barMaxLength / total)\<close>; when it is positive the bar
  starts with that many copies of the bar character followed by the last character, and
  when it is not the bar is the filler alone.

  Consequently, on an initialised bar with \<open>0 \<le> current < total\<close>, \<^verbatim>\<open>Add(1)\<close> returns
  the receiver with current increased by one, and the filled length of the bar after the
  call is at least the filled length before it whenever \<open>barMaxLength\<close> was not negative
  before the call and is not smaller at the render of the call (the terminal, the prefix
  and the suffix have not taken room from the bar), the new product not overflowing.
\<close>

theorem filled_length_is_quotient_and_grows:
  "(0 < sint (Total p) \<and> 0 \<le> sint (Current p) \<and> 0 \<le> sint (barMaxLength env p) \<and>
    sint (Current p) * sint (barMaxLength env p) < 2 ^ 63 \<longrightarrow>
      sint (barCurrentLength env p) =
        (sint (Current p) * sint (barMaxLength env p)) div sint (Total p) \<and>
      (if 0 < sint (barCurrentLength env p)
       then bar env p =
              Style_Sprint env (style_of (BarStyle p))
                (concat (replicate
                   (nat ((sint (Current p) * sint (barMaxLength env p)) div sint (Total p)))
                   (BarCharacter p)) @ LastCharacter p) @ barFiller env p
       else bar env p = barFiller env p)) \<and>
   (initialised p \<and> 0 \<le> sint (Current p) \<and> sint (Current p) < sint (Total p) \<and>
    0 \<le> sint (barMaxLength env p) \<and>
    sint (barMaxLength env p) \<le> sint (barMaxLength env' (p\<lparr>Current := Current p + 1\<rparr>)) \<and>
    (sint (Current p) + 1) * sint (barMaxLength env' (p\<lparr>Current := Current p + 1\<rparr>)) < 2 ^ 63 \<longrightarrow>
      (\<exists>p1 out. Add env' p 1 = Inr (ReturnedReceiver, p1, out) \<and>
         sint (Current p1) = sint (Current p) + 1 \<and>
         barMaxLength env' p1 = barMaxLength env' (p\<lparr>Current := Current p + 1\<rparr>) \<and>
         sint (barCurrentLength env p) \<le> sint (barCurrentLength env' p1)))"
proof (intro conjI impI)
  assume h: "0 < sint (Total p) \<and> 0 \<le> sint (Current p) \<and> 0 \<le> sint (barMaxLength env p) \<and>
    sint (Current p) * sint (barMaxLength env p) < 2 ^ 63"
  then have fl: "sint (barCurrentLength env p) =
        (sint (Current p) * sint (barMaxLength env p)) div sint (Total p)"
    by (simp add: barCurrentLength_floor)
  then show "sint (barCurrentLength env p) =
        (sint (Current p) * sint (barMaxLength env p)) div sint (Total p)" .
  show "if 0 < sint (barCurrentLength env p)
       then bar env p =
              Style_Sprint env (style_of (BarStyle p))
                (concat (replicate
                   (nat ((sint (Current p) * sint (barMaxLength env p)) div sint (Total p)))
                   (BarCharacter p)) @ LastCharacter p) @ barFiller env p
       else bar env p = barFiller env p"
  proof (cases "0 < sint (barCurrentLength env p)")
    case True
    from bar_filled_run [OF True] fl True show ?thesis
      by simp
  next
    case False
    then show ?thesis
      by (simp add: bar_def word_sless_alt)
  qed
next
  let ?q = "p\<lparr>Current := Current p + 1\<rparr>"
  assume h: "initialised p \<and> 0 \<le> sint (Current p) \<and> sint (Current p) < sint (Total p) \<and>
    0 \<le> sint (barMaxLength env p) \<and>
    sint (barMaxLength env p) \<le> sint (barMaxLength env' ?q) \<and>
    (sint (Current p) + 1) * sint (barMaxLength env' ?q) < 2 ^ 63"
  then have init: "initialised p" and c0: "0 \<le> sint (Current p)"
    and ct: "sint (Current p) < sint (Total p)" and m0: "0 \<le> sint (barMaxLength env p)"
    and mm: "sint (barMaxLength env p) \<le> sint (barMaxLength env' ?q)"
    and no: "(sint (Current p) + 1) * sint (barMaxLength env' ?q) < 2 ^ 63"
    by simp_all
  from Add_one_layout [OF init c0 ct, of env']
  obtain p1 out where ad: "Add env' p 1 = Inr (ReturnedReceiver, p1, out)"
    and t1: "Total p1 = Total p" and c1: "sint (Current p1) = sint (Current p) + 1"
    and m1: "barMaxLength env' p1 = barMaxLength env' ?q"
    by blast
  have t0: "0 < sint (Total p)"
    using c0 ct by linarith
  have le: "sint (Current p) * sint (barMaxLength env p) \<le>
            (sint (Current p) + 1) * sint (barMaxLength env' ?q)"
    using c0 m0 mm by (intro mult_mono) simp_all
  with no have "sint (Current p) * sint (barMaxLength env p) < 2 ^ 63"
    by linarith
  from barCurrentLength_floor [OF t0 c0 m0 this]
  have l: "sint (barCurrentLength env p) =
             (sint (Current p) * sint (barMaxLength env p)) div sint (Total p)" .
  have "0 < sint (Total p1)" "0 \<le> sint (Current p1)" "0 \<le> sint (barMaxLength env' p1)"
    "sint (Current p1) * sint (barMaxLength env' p1) < 2 ^ 63"
    using t0 t1 c0 c1 m0 mm m1 no by simp_all
  from barCurrentLength_floor [OF this]
  have l1: "sint (barCurrentLength env' p1) =
              ((sint (Current p) + 1) * sint (barMaxLength env' ?q)) div sint (Total p)"
    by (simp add: c1 m1 t1)
  from le t0 have "(sint (Current p) * sint (barMaxLength env p)) div sint (Total p) \<le>
      ((sint (Current p) + 1) * sint (barMaxLength env' ?q)) div sint (Total p)"
    by (rule zdiv_mono1)
  with l l1 have "sint (barCurrentLength env p) \<le> sint (barCurrentLength env' p1)"
    by simp
  with ad c1 m1
  show "\<exists>p1 out. Add env' p 1 = Inr (ReturnedReceiver, p1, out) \<and>
         sint (Current p1) = sint (Current p) + 1 \<and>
         barMaxLength env' p1 = barMaxLength env' ?q \<and>
         sint (barCurrentLength env p) \<le> sint (barCurrentLength env' p1)"
    by blast
qed

theorem filled_length_is_quotient_and_grows_witness:
  "(0 < sint (Total (started_bar 2)) \<and> 0 \<le> sint (Current (started_bar 2)) \<and>
    0 \<le> sint (barMaxLength (plain_terminal 40 0) (started_bar 2)) \<and>
    sint (Current (started_bar 2)) * sint (barMaxLength (plain_terminal 40 0) (started_bar 2)) < 2 ^ 63) \<and>
   sint (barCurrentLength (plain_terminal 40 0) (started_bar 2)) =
     (sint (Current (started_bar 2)) * sint (barMaxLength (plain_terminal 40 0) (started_bar 2)))
       div sint (Total (started_bar 2)) \<and>
   sint (barCurrentLength (plain_terminal 40 0) (started_bar 2)) = 7 \<and>
   (initialised (started_bar 2) \<and> 0 \<le> sint (Current (started_bar 2)) \<and>
    sint (Current (started_bar 2)) < sint (Total (started_bar 2)) \<and>
    0 \<le> sint (barMaxLength (plain_terminal 40 0) (started_bar 2)) \<and>
    sint (barMaxLength (plain_terminal 40 0) (started_bar 2))
      \<le> sint (barMaxLength (plain_terminal 40 0) ((started_bar 2)\<lparr>Current := Current (started_bar 2) + 1\<rparr>)) \<and>
    (sint (Current (started_bar 2)) + 1) *
      sint (barMaxLength (plain_terminal 40 0) ((started_bar 2)\<lparr>Current := Current (started_bar 2) + 1\<rparr>))
      < 2 ^ 63) \<and>
   (\<exists>p1 out. Add (plain_terminal 40 0) (started_bar 2) 1 = Inr (ReturnedReceiver, p1, out) \<and>
      sint (Current p1) = sint (Current (started_bar 2)) + 1 \<and>
      barMaxLength (plain_terminal 40 0) p1 =
        barMaxLength (plain_terminal 40 0) ((started_bar 2)\<lparr>Current := Current (started_bar 2) + 1\<rparr>) \<and>
      sint (barCurrentLength (plain_terminal 40 0) (started_bar 2))
        \<le> sint (barCurrentLength (plain_terminal 40 0) p1))"
proof -
  note inst = filled_length_is_quotient_and_grows
    [where p = "started_bar 2" and env = "plain_terminal 40 0" and env' = "plain_terminal 40 0"]
  have h1: "0 < sint (Total (started_bar 2)) \<and> 0 \<le> sint (Current (started_bar 2)) \<and>
    0 \<le> sint (barMaxLength (plain_terminal 40 0) (started_bar 2)) \<and>
    sint (Current (started_bar 2)) * sint (barMaxLength (plain_terminal 40 0) (started_bar 2)) < 2 ^ 63"
    by code_simp
  have h2: "initialised (started_bar 2) \<and> 0 \<le> sint (Current (started_bar 2)) \<and>
    sint (Current (started_bar 2)) < sint (Total (started_bar 2)) \<and>
    0 \<le> sint (barMaxLength (plain_terminal 40 0) (started_bar 2)) \<and>
    sint (barMaxLength (plain_terminal 40 0) (started_bar 2))
      \<le> sint (barMaxLength (plain_terminal 40 0) ((started_bar 2)\<lparr>Current := Current (started_bar 2) + 1\<rparr>)) \<and>
    (sint (Current (started_bar 2)) + 1) *
      sint (barMaxLength (plain_terminal 40 0) ((started_bar 2)\<lparr>Current := Current (started_bar 2) + 1\<rparr>))
      < 2 ^ 63"
    by code_simp
  from inst h1 have c1: "sint (barCurrentLength (plain_terminal 40 0) (started_bar 2)) =
     (sint (Current (started_bar 2)) * sint (barMaxLength (plain_terminal 40 0) (started_bar 2)))
       div sint (Total (started_bar 2))"
    by blast
  have v: "sint (barCurrentLength (plain_terminal 40 0) (started_bar 2)) = 7"
    by code_simp
  from inst h2 have c2: "\<exists>p1 out. Add (plain_terminal 40 0) (started_bar 2) 1 = Inr (ReturnedReceiver, p1, out) \<and>
      sint (Current p1) = sint (Current (started_bar 2)) + 1 \<and>
      barMaxLength (plain_terminal 40 0) p1 =
        barMaxLength (plain_terminal 40 0) ((started_bar 2)\<lparr>Current := Current (started_bar 2) + 1\<rparr>) \<and>
      sint (barCurrentLength (plain_terminal 40 0) (started_bar 2))
        \<le> sint (barCurrentLength (plain_terminal 40 0) p1)"
    by blast
  from conjI [OF h1 conjI [OF c1 conjI [OF v conjI [OF h2 c2]]]]
  show ?thesis .
qed

text \<open>
  C6, as the claim states it, fails. On a terminal of 12 columns the started bar at 1 of
  5 has \<open>barMaxLength = -9\<close> and \<open>barCurrentLength = -1\<close>, where the floor of \<open>-9/5\<close>
  is \<open>-2\<close>; it was 0 before the \<^verbatim>\<open>Add(1)\<close> that led there. And when the terminal
  shrinks from 80 to 40 columns between two renders, \<^verbatim>\<open>Add(1)\<close> takes the bar from 2 to
  3 of 5 and the filled length from 23 to 11. And on the complete bar of \<open>2\<^sup>6\<^sup>2\<close>
  steps with \<open>barMaxLength = 26\<close> the product wraps around and the filled length is
  \<open>-2\<close>, not 26.
\<close>

theorem filled_length_below_floor_and_shrinking:
  "atomicIsActive (started_bar 1) = Some True \<and> 0 <s Total (started_bar 1) \<and>
   sint (barMaxLength (plain_terminal 12 0) (started_bar 1)) = - 9 \<and>
   sint (barCurrentLength (plain_terminal 12 0) (started_bar 1)) = - 1 \<and>
   (sint (Current (started_bar 1)) * sint (barMaxLength (plain_terminal 12 0) (started_bar 1)))
      div sint (Total (started_bar 1)) = - 2 \<and>
   sint (barCurrentLength (plain_terminal 12 0) (started_bar 0)) = 0 \<and>
   Add (plain_terminal 12 0) (started_bar 0) 1 =
     Inr (ReturnedReceiver, started_bar 1, [Fprinto None ''Copying [1/5]   20% '']) \<and>
   sint (barCurrentLength (plain_terminal 80 0) (started_bar 2)) = 23 \<and>
   Add (plain_terminal 40 0) (started_bar 2) 1 =
     Inr (ReturnedReceiver, started_bar 3,
          [Fprinto None ''Copying [3/5] ===========>--------  60% '']) \<and>
   sint (barCurrentLength (plain_terminal 40 0) (started_bar 3)) = 11 \<and>
   sint (barMaxLength (plain_terminal 41 0) huge_bar) = 26 \<and>
   sint (barCurrentLength (plain_terminal 41 0) huge_bar) = - 2 \<and>
   (sint (Current huge_bar) * sint (barMaxLength (plain_terminal 41 0) huge_bar))
      div sint (Total huge_bar) = 26"
  by code_simp

section \<open>The effective width\<close>

text \<open>
  While the terminal keeps its width between the two reads, the width of the layout is
  \<open>MaxWidth\<close> where that is positive and no wider than the terminal, and the width of
  the terminal otherwise.
\<close>

lemma width_stable_terminal:
  assumes "GetTerminalWidth env 1 = GetTerminalWidth env 0"
  shows "width env p =
           (if 0 <s MaxWidth p \<and> MaxWidth p \<le>s GetTerminalWidth env 0 then MaxWidth p
            else GetTerminalWidth env 0)"
  using assms by (auto simp: width_def word_sle_eq word_sless_alt)

text \<open>
  C7. \<^verbatim>\<open>getString\<close> does not lay out every render in the smaller of the terminal width
  and a positive \<open>MaxWidth\<close>. It reads the terminal width once to compare it with
  \<open>MaxWidth\<close> and a second time to take it as the width. On a terminal that is resized
  from 60 to 100 columns between the two reads, the started bar with \<open>MaxWidth\<close> 80 and 3
  steps of 5 done is laid out with width 100: the line that \<^verbatim>\<open>getString\<close> returns is 100
  characters long, wider than \<open>MaxWidth\<close>, where the smaller of the terminal width and
  \<open>MaxWidth\<close> is 60 at the first read and 80 at the second.
\<close>

theorem width_follows_terminal_resized_between_reads:
  "MaxWidth ((started_bar 3)\<lparr>MaxWidth := 80\<rparr>) = 80 \<and>
   GetTerminalWidth (resized_terminal 60 100 0) 0 = 60 \<and>
   GetTerminalWidth (resized_terminal 60 100 0) 1 = 100 \<and>
   width (resized_terminal 60 100 0) ((started_bar 3)\<lparr>MaxWidth := 80\<rparr>) = 100 \<and>
   getString (resized_terminal 60 100 0) ((started_bar 3)\<lparr>MaxWidth := 80\<rparr>) =
     Inr (''Copying [3/5] '' @ replicate 47 CHR ''='' @ ''>'' @ replicate 32 CHR ''-'' @ ''  60% '',
          (started_bar 3)\<lparr>MaxWidth := 80\<rparr>) \<and>
   length (''Copying [3/5] '' @ replicate 47 CHR ''='' @ ''>'' @ replicate 32 CHR ''-'' @ ''  60% '') = 100"
  by code_simp


section \<open>The padding of the count\<close>

text \<open>
  The number of decimal digits of a positive number is one more than the integer part of
  its logarithm to base 10, and is at most 19 for a positive \<^verbatim>\<open>int\<close>.
\<close>

lemma length_decimal: "length (decimal n) = (if n = 0 then 1 else floorlog 10 n)"
proof (induction n rule: decimal.induct)
  case (1 n)
  show ?case
  proof (cases "n < 10")
    case True
    then have "n div 10 = 0" by simp
    then have "n \<noteq> 0 \<Longrightarrow> floorlog 10 n = 1"
      by (subst compute_floorlog) (simp add: compute_floorlog)
    with True show ?thesis
      by (subst decimal.simps) auto
  next
    case False
    then have pos: "0 < n div 10" by simp
    have "length (decimal n) = length (decimal (n div 10)) + 1"
      using False by (subst decimal.simps) simp
    also have "\<dots> = floorlog 10 (n div 10) + 1"
      using 1 [OF False] pos by simp
    also have "\<dots> = floorlog 10 n"
      using False by (subst (2) compute_floorlog) simp
    finally show ?thesis
      using False by simp
  qed
qed

lemma length_decimal_pos: "0 < length (decimal n)"
  by (subst decimal.simps) simp

lemma length_decimal_mono:
  assumes "m \<le> n"
  shows "length (decimal m) \<le> length (decimal n)"
proof (cases "m = 0")
  case True
  have "1 \<le> length (decimal n)"
    using length_decimal_pos [of n] by linarith
  with True show ?thesis
    by (simp add: length_decimal)
next
  case False
  with assms have "n \<noteq> 0" by simp
  with False floorlog_mono [OF assms, of 10] show ?thesis
    by (simp add: length_decimal)
qed

lemma floorlog_floor_log:
  assumes "0 < n"
  shows "int (floorlog 10 n) = 1 + \<lfloor>log 10 (real n)\<rfloor>"
proof -
  have "1 \<le> real n" using assms by simp
  then have "0 \<le> log 10 (real n)"
    by simp
  then have "0 \<le> \<lfloor>log 10 (real n)\<rfloor>"
    by simp
  with assms show ?thesis
    by (simp add: floorlog_def)
qed

lemma floorlog_go_int:
  assumes "0 < n" and "n < 2 ^ 63"
  shows "floorlog 10 n \<le> 19"
proof -
  have "(10::nat) ^ (floorlog 10 n - 1) \<le> n"
    using floorlog_bounds [of n 10] assms(1) by simp
  also have "n < 10 ^ 19"
    using assms(2) by simp
  finally have "(10::nat) ^ (floorlog 10 n - 1) < 10 ^ 19" .
  then have "floorlog 10 n - 1 < 19"
    by (simp only: power_strict_increasing_iff) 
  then show ?thesis by simp
qed

text \<open>
  A number that is not negative and has no more digits than the width is printed by
  \<open>format_0d\<close> in exactly that many characters, zeros first.
\<close>

lemma format_0d_pads:
  assumes "0 \<le> sint n" and "length (decimal (nat (sint n))) \<le> nat (sint w)"
  shows "format_0d w n =
           replicate (nat (sint w) - length (decimal (nat (sint n)))) CHR ''0'' @ decimal (nat (sint n))"
    and "length (format_0d w n) = nat (sint w)"
  using assms by (simp_all add: format_0d_def Let_def)

lemma count_block:
  assumes "ShowCount p"
  shows "before env p =
           (if ShowTitle p
            then Style_Sprint env (style_of (TitleStyle p)) (title_of (atomicTitle p)) @ '' ''
            else []) @
           Gray env ''['' @
           LightWhite env (Sprintf_pad env (1 + Log10_int env (Total p)) (Current p)) @
           Gray env ''/'' @ LightWhite env (Sprint_int env (Total p)) @ Gray env '']'' @ '' ''"
  using assms by (simp add: before_def Let_def)

text \<open>
  C9, as the code has it. Take an active bar that shows the count, with total \<open>> 0\<close> and
  \<open>0 \<le> current \<le> total\<close>, on which \<^verbatim>\<open>int(math.Log10(float64(total)))\<close> is the integer
  part of the logarithm of the total and \<^verbatim>\<open>%0*d\<close> prints as \<open>format_0d\<close> does. Then
  \<^verbatim>\<open>getString\<close> returns the line whose prefix is the title part followed by the count
  block \<open>[current/total]\<close>, in which current is printed in exactly
  \<open>1 + \<lfloor>log\<^sub>1\<^sub>0 total\<rfloor>\<close> characters: its decimal digits, with zeros before them.
\<close>

theorem count_block_pads_current_to_digits_of_total:
  assumes "ShowCount p" and "atomicIsActive p = Some True" and "atomicTitle p \<noteq> None"
    and "0 < sint (Total p)" and "0 \<le> sint (Current p)" and "sint (Current p) \<le> sint (Total p)"
    and "sint (Log10_int env (Total p)) = \<lfloor>log 10 (real_of_int (sint (Total p)))\<rfloor>"
    and "Sprintf_pad env (1 + Log10_int env (Total p)) (Current p) =
           format_0d (1 + Log10_int env (Total p)) (Current p)"
  shows "(\<exists>p2. getString env p = Inr (before env p @ bar env p @ after env p, p2)) \<and>
         before env p =
           (if ShowTitle p
            then Style_Sprint env (style_of (TitleStyle p)) (title_of (atomicTitle p)) @ '' ''
            else []) @
           Gray env ''['' @
           LightWhite env (Sprintf_pad env (1 + Log10_int env (Total p)) (Current p)) @
           Gray env ''/'' @ LightWhite env (Sprint_int env (Total p)) @ Gray env '']'' @ '' '' \<and>
         int (length (Sprintf_pad env (1 + Log10_int env (Total p)) (Current p))) =
           1 + \<lfloor>log 10 (real_of_int (sint (Total p)))\<rfloor> \<and>
         Sprintf_pad env (1 + Log10_int env (Total p)) (Current p) =
           replicate (nat (1 + \<lfloor>log 10 (real_of_int (sint (Total p)))\<rfloor>) -
                      length (decimal (nat (sint (Current p))))) CHR ''0'' @
           decimal (nat (sint (Current p)))"
proof -
  define t where "t = nat (sint (Total p))"
  define c where "c = nat (sint (Current p))"
  define w where "w = 1 + Log10_int env (Total p)"
  have t: "0 < t" and tr: "real_of_int (sint (Total p)) = real t" and ct: "c \<le> t"
    using assms(4-6) by (simp_all add: t_def c_def)
  have "sint (Total p) < 2 ^ 63"
    by (rule sint_go_int_range)
  then have "t < 2 ^ 63"
    using assms(4) by (simp add: t_def)
  from floorlog_go_int [OF t this] have f19: "floorlog 10 t \<le> 19" .
  have fl: "int (floorlog 10 t) = 1 + \<lfloor>log 10 (real t)\<rfloor>"
    by (rule floorlog_floor_log [OF t])
  have lg: "sint (Log10_int env (Total p)) = int (floorlog 10 t) - 1"
    using assms(7) fl tr by simp
  have "sint (1 + Log10_int env (Total p)) = 1 + sint (Log10_int env (Total p))"
  proof -
    have "- (2 ^ 63) \<le> sint (1 :: go_int) + sint (Log10_int env (Total p))"
      and "sint (1 :: go_int) + sint (Log10_int env (Total p)) < 2 ^ 63"
      using lg f19 by simp_all
    from sint_add_go_int [OF this] show ?thesis by simp
  qed
  then have sw: "sint w = int (floorlog 10 t)"
    using lg by (simp add: w_def)
  then have nw: "nat (sint w) = floorlog 10 t"
    by simp
  have "length (decimal c) \<le> length (decimal t)"
    by (rule length_decimal_mono [OF ct])
  also have "\<dots> = floorlog 10 t"
    using t by (simp add: length_decimal)
  finally have fits: "length (decimal (nat (sint (Current p)))) \<le> nat (sint w)"
    by (simp add: nw c_def)
  note pad = format_0d_pads [OF assms(5) fits]
  have sp: "Sprintf_pad env w (Current p) = format_0d w (Current p)"
    using assms(8) by (simp add: w_def)
  have nfl: "nat (1 + \<lfloor>log 10 (real_of_int (sint (Total p)))\<rfloor>) = floorlog 10 t"
    using fl tr by simp
  have g: "\<exists>p2. getString env p = Inr (before env p @ bar env p @ after env p, p2)"
  proof (rule getString_active [OF assms(2,3)])
    show "Total p \<noteq> 0"
      using assms(4) by auto
  qed
  have b: "before env p =
           (if ShowTitle p
            then Style_Sprint env (style_of (TitleStyle p)) (title_of (atomicTitle p)) @ '' ''
            else []) @
           Gray env ''['' @ LightWhite env (Sprintf_pad env w (Current p)) @
           Gray env ''/'' @ LightWhite env (Sprint_int env (Total p)) @ Gray env '']'' @ '' ''"
    unfolding w_def by (rule count_block [OF assms(1)])
  have l: "int (length (Sprintf_pad env w (Current p))) =
             1 + \<lfloor>log 10 (real_of_int (sint (Total p)))\<rfloor>"
    using pad(2) sp nw fl tr by simp
  have d: "Sprintf_pad env w (Current p) =
           replicate (nat (1 + \<lfloor>log 10 (real_of_int (sint (Total p)))\<rfloor>) -
                      length (decimal (nat (sint (Current p))))) CHR ''0'' @
           decimal (nat (sint (Current p)))"
    using pad(1) sp nw nfl by simp
  from g b l d show ?thesis
    unfolding w_def by blast
qed

lemma floor_log10_100: "\<lfloor>log 10 (100::real)\<rfloor> = 2"
proof -
  have "floorlog 10 100 = 3"
    by (simp add: compute_floorlog)
  with floorlog_floor_log [of 100] show ?thesis
    by simp
qed

lemma floor_log10_5: "\<lfloor>log 10 (5::real)\<rfloor> = 0"
proof -
  have "floorlog 10 5 = 1"
    by (simp add: compute_floorlog)
  with floorlog_floor_log [of 5] show ?thesis
    by simp
qed

text \<open>
  The theorem at total 100 on the plain terminal of 40 columns: current is printed in 3
  characters at 1, at 10 and at 100, and the three lines are as shown.
\<close>

theorem count_block_pads_current_to_digits_of_total_witness:
  "ShowCount ((started_bar 10)\<lparr>Total := 100\<rparr>) \<and>
   atomicIsActive ((started_bar 10)\<lparr>Total := 100\<rparr>) = Some True \<and>
   atomicTitle ((started_bar 10)\<lparr>Total := 100\<rparr>) \<noteq> None \<and>
   sint (Total ((started_bar 10)\<lparr>Total := 100\<rparr>)) = 100 \<and>
   sint (Current ((started_bar 10)\<lparr>Total := 100\<rparr>)) = 10 \<and>
   sint (Log10_int (plain_terminal 40 0) 100) = \<lfloor>log 10 (100 :: real)\<rfloor> \<and>
   Sprintf_pad (plain_terminal 40 0) = format_0d \<and>
   length (Sprintf_pad (plain_terminal 40 0) (1 + Log10_int (plain_terminal 40 0) 100) 1) = 3 \<and>
   length (Sprintf_pad (plain_terminal 40 0) (1 + Log10_int (plain_terminal 40 0) 100) 10) = 3 \<and>
   length (Sprintf_pad (plain_terminal 40 0) (1 + Log10_int (plain_terminal 40 0) 100) 100) = 3 \<and>
   getString (plain_terminal 40 0) ((started_bar 1)\<lparr>Total := 100\<rparr>) =
     Inr (''Copying [001/100] ---------------   1% '', (started_bar 1)\<lparr>Total := 100\<rparr>) \<and>
   getString (plain_terminal 40 0) ((started_bar 10)\<lparr>Total := 100\<rparr>) =
     Inr (''Copying [010/100] =>--------------  10% '', (started_bar 10)\<lparr>Total := 100\<rparr>) \<and>
   getString (plain_terminal 40 0) ((started_bar 100)\<lparr>Total := 100\<rparr>) =
     Inr (''Copying [100/100] ===============> 100% '', (started_bar 100)\<lparr>Total := 100\<rparr>)"
proof -
  let ?E = "plain_terminal 40 0"
  let ?B = "\<lambda>c. (started_bar c)\<lparr>Total := 100\<rparr>"
  have h1: "ShowCount (?B c)" and h2: "atomicIsActive (?B c) = Some True"
    and h3: "atomicTitle (?B c) \<noteq> None" and t: "Total (?B c) = 100" and c: "Current (?B c) = c" for c
    by (simp_all add: started_bar_def)
  have h4: "0 < sint (Total (?B c))" for c
    by (simp add: t)
  have l: "sint (Log10_int ?E 100) = 2"
    by code_simp
  have h7: "sint (Log10_int ?E (Total (?B c))) = \<lfloor>log 10 (real_of_int (sint (Total (?B c))))\<rfloor>" for c
    by (simp add: t l floor_log10_100)
  have f: "Sprintf_pad ?E = format_0d"
    by (simp add: plain_terminal_def)
  have h8: "Sprintf_pad ?E (1 + Log10_int ?E (Total (?B c))) (Current (?B c)) =
           format_0d (1 + Log10_int ?E (Total (?B c))) (Current (?B c))" for c
    by (simp add: f)
  have a: "0 \<le> sint (Current (?B 1))" "sint (Current (?B 1)) \<le> sint (Total (?B 1))"
    and b: "0 \<le> sint (Current (?B 10))" "sint (Current (?B 10)) \<le> sint (Total (?B 10))"
    and d: "0 \<le> sint (Current (?B 100))" "sint (Current (?B 100)) \<le> sint (Total (?B 100))"
    by (simp_all add: t c)
  note i1 = count_block_pads_current_to_digits_of_total [OF h1 h2 h3 h4 a h7 h8]
  note i2 = count_block_pads_current_to_digits_of_total [OF h1 h2 h3 h4 b h7 h8]
  note i3 = count_block_pads_current_to_digits_of_total [OF h1 h2 h3 h4 d h7 h8]
  from conjunct1 [OF conjunct2 [OF conjunct2 [OF i1]]] have r1: "length (Sprintf_pad ?E (1 + Log10_int ?E 100) 1) = 3"
    by (simp add: t c floor_log10_100)
  from conjunct1 [OF conjunct2 [OF conjunct2 [OF i2]]] have r2: "length (Sprintf_pad ?E (1 + Log10_int ?E 100) 10) = 3"
    by (simp add: t c floor_log10_100)
  from conjunct1 [OF conjunct2 [OF conjunct2 [OF i3]]] have r3: "length (Sprintf_pad ?E (1 + Log10_int ?E 100) 100) = 3"
    by (simp add: t c floor_log10_100)
  have g1: "getString ?E (?B 1) = Inr (''Copying [001/100] ---------------   1% '', ?B 1)"
    by code_simp
  have g2: "getString ?E (?B 10) = Inr (''Copying [010/100] =>--------------  10% '', ?B 10)"
    by code_simp
  have g3: "getString ?E (?B 100) = Inr (''Copying [100/100] ===============> 100% '', ?B 100)"
    by code_simp
  have s: "sint (Total (?B 10)) = 100" "sint (Current (?B 10)) = 10"
    by (simp_all add: t c)
  have l': "sint (Log10_int ?E 100) = \<lfloor>log 10 (100 :: real)\<rfloor>"
    by (simp add: l floor_log10_100)
  from conjI [OF h1 conjI [OF h2 conjI [OF h3 conjI [OF s(1) conjI [OF s(2) conjI [OF l' conjI [OF f
       conjI [OF r1 conjI [OF r2 conjI [OF r3 conjI [OF g1 conjI [OF g2 g3]]]]]]]]]]]]
  show ?thesis .
qed

text \<open>
  C9, as the claim states it, fails: the padding is a least width, not a fixed one. On
  the started bar with total 5, where \<open>1 + \<lfloor>log\<^sub>1\<^sub>0 total\<rfloor> = 1\<close>, \<^verbatim>\<open>Add(6)\<close> at current
  4 writes a first frame whose count block is \<open>[10/5]\<close>, and \<^verbatim>\<open>Add(-3)\<close> at current 2
  writes the count block \<open>[-1/5]\<close>: current takes two characters in both.
\<close>

theorem count_block_wider_than_digits_of_total:
  "ShowCount (started_bar 4) \<and> Total (started_bar 4) = 5 \<and>
   1 + \<lfloor>log 10 (real_of_int (sint (Total (started_bar 4))))\<rfloor> = 1 \<and>
   Add (plain_terminal 40 0) (started_bar 4) 6 =
     Inr (ReturnedReceiver,
          (started_bar 10)\<lparr>Total := 10, IsActive := False, atomicIsActive := Some False\<rparr>,
          [Fprinto None ''Copying [10/5] ====================================> 200% '',
           Fprinto None ''Copying [10/10] =================> 100% '',
           cursor_Show, Fprintln None []]) \<and>
   Add (plain_terminal 40 0) (started_bar 2) (- 3) =
     Inr (ReturnedReceiver, started_bar (- 1),
          [Fprinto None ''Copying [-1/5] --------------------- -20% ''])"
proof -
  have a: "ShowCount (started_bar 4)" and b: "Total (started_bar 4) = 5"
    by (simp_all add: started_bar_def)
  have c: "1 + \<lfloor>log 10 (real_of_int (sint (Total (started_bar 4))))\<rfloor> = 1"
    by (simp add: b floor_log10_5)
  have d: "Add (plain_terminal 40 0) (started_bar 4) 6 =
     Inr (ReturnedReceiver,
          (started_bar 10)\<lparr>Total := 10, IsActive := False, atomicIsActive := Some False\<rparr>,
          [Fprinto None ''Copying [10/5] ====================================> 200% '',
           Fprinto None ''Copying [10/10] =================> 100% '',
           cursor_Show, Fprintln None []])"
    by code_simp
  have e: "Add (plain_terminal 40 0) (started_bar 2) (- 3) =
     Inr (ReturnedReceiver, started_bar (- 1),
          [Fprinto None ''Copying [-1/5] --------------------- -20% ''])"
    by code_simp
  from conjI [OF a conjI [OF b conjI [OF c conjI [OF d e]]]] show ?thesis .
qed



section \<open>\<^verbatim>\<open>Add\<close> on a bar with a total\<close>

text \<open>
  Where both calls of \<^verbatim>\<open>strings.Repeat\<close> are within the two bounds, both return and
  the render is the one of \<^verbatim>\<open>getString\<close> on unbounded strings.
\<close>

lemma strings_Repeat_fits:
  assumes "Repeat_fits env s n" and "0 <s n"
  shows "strings_Repeat env s n = Inr (Repeat s n)"
  using assms by (simp add: strings_Repeat_def Repeat_fits_def word_sless_alt)

lemma bar_bounded_fits:
  assumes "bar_fits env p"
  shows "bar_bounded env p = Inr (bar env p)"
proof -
  have f: "barFiller_bounded env p = Inr (barFiller env p)"
    using assms by (simp add: barFiller_bounded_def barFiller_def bar_fits_def strings_Repeat_fits)
  show ?thesis
    using assms by (simp add: bar_bounded_def bar_def f bar_fits_def strings_Repeat_fits)
qed

lemma bar_fits_restyle:
  assumes "style_of ts = style_of (TitleStyle p)" and "style_of bs = style_of (BarStyle p)"
  shows "bar_fits env (p\<lparr>TitleStyle := ts, BarStyle := bs\<rparr>) = bar_fits env p"
  by (simp add: bar_fits_def layout_restyle [OF assms])

lemma getString_bounded_fits:
  assumes "bar_fits env p"
  shows "getString_bounded env p = getString env p"
proof -
  define ts where "ts = (if TitleStyle p = None then Some NewStyle else TitleStyle p)"
  define bs where "bs = (if BarStyle p = None then Some NewStyle else BarStyle p)"
  define p2 where "p2 = p\<lparr>TitleStyle := ts, BarStyle := bs\<rparr>"
  have st: "style_of ts = style_of (TitleStyle p)" "style_of bs = style_of (BarStyle p)"
    by (simp_all add: ts_def bs_def style_of_def)
  have "bar_fits env p2"
    unfolding p2_def using assms by (simp only: bar_fits_restyle [OF st])
  then have bb: "bar_bounded env p2 = Inr (bar env p2)"
    by (rule bar_bounded_fits)
  have norm: "(if BarStyle (if TitleStyle p = None then p\<lparr>TitleStyle := Some NewStyle\<rparr> else p) = None
               then (if TitleStyle p = None then p\<lparr>TitleStyle := Some NewStyle\<rparr> else p)
                      \<lparr>BarStyle := Some NewStyle\<rparr>
               else (if TitleStyle p = None then p\<lparr>TitleStyle := Some NewStyle\<rparr> else p)) = p2"
    by (simp add: p2_def ts_def bs_def)
  show ?thesis
    unfolding getString_bounded_def getString_def Let_def norm
    by (simp add: bb split: option.split)
qed

lemma getString_frame:
  assumes "atomicIsActive p = Some True" and "atomicTitle p \<noteq> None" and "Total p \<noteq> 0"
  shows "\<exists>ts bs. getString env p =
                    Inr (before env p @ bar env p @ after env p, p\<lparr>TitleStyle := ts, BarStyle := bs\<rparr>) \<and>
                  style_of ts = style_of (TitleStyle p) \<and> style_of bs = style_of (BarStyle p)"
proof -
  define ts where "ts = (if TitleStyle p = None then Some NewStyle else TitleStyle p)"
  define bs where "bs = (if BarStyle p = None then Some NewStyle else BarStyle p)"
  define p2 where "p2 = p\<lparr>TitleStyle := ts, BarStyle := bs\<rparr>"
  have st: "style_of ts = style_of (TitleStyle p)" "style_of bs = style_of (BarStyle p)"
    by (simp_all add: ts_def bs_def style_of_def)
  have "getString env p = Inr (before env p2 @ bar env p2 @ after env p2, p2)"
    using assms by (auto simp: getString_def Let_def p2_def ts_def bs_def)
  then have "getString env p = Inr (before env p @ bar env p @ after env p, p\<lparr>TitleStyle := ts, BarStyle := bs\<rparr>)"
    unfolding p2_def by (simp add: layout_restyle [OF st])
  with st show ?thesis
    by blast
qed

text \<open>
  \<^verbatim>\<open>Add\<close> below the total and at or past it.
\<close>

lemma Add_bounded_unfold_below:
  assumes "Total p \<noteq> 0"
    and "getString_bounded env (p\<lparr>Current := Current p + count\<rparr>) = Inr (s, p1)"
    and "\<not> Total p1 \<le>s Current p1"
  shows "Add_bounded env p count = Inr (ReturnedReceiver, p1, [Fprinto (Writer p1) s])"
  using assms by (simp add: Add_bounded_def updateProgress_bounded_def)

lemma Add_bounded_unfold_reach:
  assumes "Total p \<noteq> 0"
    and "getString_bounded env (p\<lparr>Current := Current p + count\<rparr>) = Inr (s1, p1)"
    and "Total p1 \<le>s Current p1"
    and "getString_bounded env (p1\<lparr>Total := Current p1\<rparr>) = Inr (s2, p2)"
    and "Stop p2 = Inr (p3, out3)"
  shows "Add_bounded env p count =
           Inr (ReturnedReceiver, p3, [Fprinto (Writer p1) s1, Fprinto (Writer p2) s2] @ out3)"
  using assms by (simp add: Add_bounded_def updateProgress_bounded_def)

lemma getString_bounded_initialised:
  assumes "atomicIsActive p \<noteq> None" and "atomicTitle p \<noteq> None" and "bar_fits env p"
  shows "\<exists>s ts bs. getString_bounded env p = Inr (s, p\<lparr>TitleStyle := ts, BarStyle := bs\<rparr>) \<and>
           style_of ts = style_of (TitleStyle p) \<and> style_of bs = style_of (BarStyle p)"
proof -
  from getString_initialised [OF assms(1,2), of env]
  obtain s ts bs where g: "getString env p = Inr (s, p\<lparr>TitleStyle := ts, BarStyle := bs\<rparr>)"
    by blast
  from getString_styles [OF g] have "style_of ts = style_of (TitleStyle p)"
    and "style_of bs = style_of (BarStyle p)"
    by simp_all
  with g getString_bounded_fits [OF assms(3)] show ?thesis
    by auto
qed

lemma Add_bounded_below:
  assumes "Total p \<noteq> 0" and "atomicIsActive p \<noteq> None" and "atomicTitle p \<noteq> None"
    and "\<not> Total p \<le>s Current p + count"
    and "bar_fits env (p\<lparr>Current := Current p + count\<rparr>)"
  shows "\<exists>s ts bs.
           getString_bounded env (p\<lparr>Current := Current p + count\<rparr>) =
             Inr (s, p\<lparr>Current := Current p + count, TitleStyle := ts, BarStyle := bs\<rparr>) \<and>
           style_of ts = style_of (TitleStyle p) \<and> style_of bs = style_of (BarStyle p) \<and>
           Add_bounded env p count =
             Inr (ReturnedReceiver, p\<lparr>Current := Current p + count, TitleStyle := ts, BarStyle := bs\<rparr>,
                  [Fprinto (Writer p) s])"
proof -
  let ?q = "p\<lparr>Current := Current p + count\<rparr>"
  have "atomicIsActive ?q \<noteq> None" and "atomicTitle ?q \<noteq> None"
    using assms(2,3) by simp_all
  from getString_bounded_initialised [OF this assms(5)]
  obtain s ts bs where g: "getString_bounded env ?q = Inr (s, ?q\<lparr>TitleStyle := ts, BarStyle := bs\<rparr>)"
    and st: "style_of ts = style_of (TitleStyle p)" "style_of bs = style_of (BarStyle p)"
    by auto
  have "\<not> Total (?q\<lparr>TitleStyle := ts, BarStyle := bs\<rparr>) \<le>s Current (?q\<lparr>TitleStyle := ts, BarStyle := bs\<rparr>)"
    using assms(4) by simp
  from Add_bounded_unfold_below [OF assms(1) g this]
  have "Add_bounded env p count =
          Inr (ReturnedReceiver, p\<lparr>Current := Current p + count, TitleStyle := ts, BarStyle := bs\<rparr>,
               [Fprinto (Writer p) s])"
    by simp
  with g st show ?thesis
    by auto
qed

lemma Add_bounded_reach:
  assumes "Total p \<noteq> 0" and "atomicIsActive p = Some a" and "atomicTitle p \<noteq> None"
    and "Total p \<le>s Current p + count"
    and "bar_fits env (p\<lparr>Current := Current p + count\<rparr>)"
    and "bar_fits env (p\<lparr>Current := Current p + count, Total := Current p + count\<rparr>)"
  shows "\<exists>s1 ts1 bs1 s2 ts2 bs2.
           getString_bounded env (p\<lparr>Current := Current p + count\<rparr>) =
             Inr (s1, p\<lparr>Current := Current p + count, TitleStyle := ts1, BarStyle := bs1\<rparr>) \<and>
           getString_bounded env
               (p\<lparr>Current := Current p + count, Total := Current p + count,
                  TitleStyle := ts1, BarStyle := bs1\<rparr>) =
             Inr (s2, p\<lparr>Current := Current p + count, Total := Current p + count,
                        TitleStyle := ts2, BarStyle := bs2\<rparr>) \<and>
           style_of ts1 = style_of (TitleStyle p) \<and> style_of bs1 = style_of (BarStyle p) \<and>
           style_of ts2 = style_of (TitleStyle p) \<and> style_of bs2 = style_of (BarStyle p) \<and>
           Add_bounded env p count =
             Inr (ReturnedReceiver,
                  p\<lparr>Current := Current p + count, Total := Current p + count,
                    TitleStyle := ts2, BarStyle := bs2,
                    rerenderTask := (if rerenderTask p = Some True then Some False else rerenderTask p),
                    IsActive := (if a then False else IsActive p),
                    atomicIsActive := Some False\<rparr>,
                  [Fprinto (Writer p) s1, Fprinto (Writer p) s2] @
                  (if rerenderTask p = Some True then [Task_Stop] else []) @ [cursor_Show] @
                  (if a then (if RemoveWhenDone p then [fClearLine (Writer p), Fprinto (Writer p) []]
                              else [Fprintln (Writer p) []])
                   else []))"
proof -
  let ?c = "Current p + count"
  let ?q1 = "p\<lparr>Current := ?c\<rparr>"
  let ?q2 = "p\<lparr>Current := ?c, Total := ?c\<rparr>"
  have "atomicIsActive ?q1 \<noteq> None" and "atomicTitle ?q1 \<noteq> None"
    using assms(2,3) by simp_all
  from getString_bounded_initialised [OF this assms(5)]
  obtain s1 ts1 bs1
    where g1: "getString_bounded env ?q1 = Inr (s1, ?q1\<lparr>TitleStyle := ts1, BarStyle := bs1\<rparr>)"
      and st1: "style_of ts1 = style_of (TitleStyle p)" "style_of bs1 = style_of (BarStyle p)"
    by auto
  let ?p1 = "?q1\<lparr>TitleStyle := ts1, BarStyle := bs1\<rparr>"
  let ?r = "?q2\<lparr>TitleStyle := ts1, BarStyle := bs1\<rparr>"
  have r: "?p1\<lparr>Total := Current ?p1\<rparr> = ?r"
    by simp
  have st1': "style_of ts1 = style_of (TitleStyle ?q2)" "style_of bs1 = style_of (BarStyle ?q2)"
    using st1 by simp_all
  have fr: "bar_fits env ?r"
    using assms(6) by (simp only: bar_fits_restyle [OF st1'])
  have "atomicIsActive ?r \<noteq> None" and "atomicTitle ?r \<noteq> None"
    using assms(2,3) by simp_all
  from getString_bounded_initialised [OF this fr]
  obtain s2 ts2 bs2
    where g2: "getString_bounded env ?r = Inr (s2, ?r\<lparr>TitleStyle := ts2, BarStyle := bs2\<rparr>)"
      and st2: "style_of ts2 = style_of (TitleStyle ?r)" "style_of bs2 = style_of (BarStyle ?r)"
    by auto
  let ?p2 = "?r\<lparr>TitleStyle := ts2, BarStyle := bs2\<rparr>"
  have g2': "getString_bounded env (?p1\<lparr>Total := Current ?p1\<rparr>) = Inr (s2, ?p2)"
    using g2 by (simp only: r)
  have "atomicIsActive ?p2 = Some a"
    using assms(2) by simp
  note stop = Stop_initialised [OF this]
  have reach: "Total ?p1 \<le>s Current ?p1"
    using assms(4) by simp
  from Add_bounded_unfold_reach [OF assms(1) g1 reach g2' stop]
  have "Add_bounded env p count =
             Inr (ReturnedReceiver,
                  p\<lparr>Current := Current p + count, Total := Current p + count,
                    TitleStyle := ts2, BarStyle := bs2,
                    rerenderTask := (if rerenderTask p = Some True then Some False else rerenderTask p),
                    IsActive := (if a then False else IsActive p),
                    atomicIsActive := Some False\<rparr>,
                  [Fprinto (Writer p) s1, Fprinto (Writer p) s2] @
                  (if rerenderTask p = Some True then [Task_Stop] else []) @ [cursor_Show] @
                  (if a then (if RemoveWhenDone p then [fClearLine (Writer p), Fprinto (Writer p) []]
                              else [Fprintln (Writer p) []])
                   else []))"
    by simp
  moreover have "getString_bounded env
               (p\<lparr>Current := Current p + count, Total := Current p + count,
                  TitleStyle := ts1, BarStyle := bs1\<rparr>) =
             Inr (s2, p\<lparr>Current := Current p + count, Total := Current p + count,
                        TitleStyle := ts2, BarStyle := bs2\<rparr>)"
    using g2 by simp
  moreover have "getString_bounded env (p\<lparr>Current := Current p + count\<rparr>) =
             Inr (s1, p\<lparr>Current := Current p + count, TitleStyle := ts1, BarStyle := bs1\<rparr>)"
    using g1 by simp
  moreover have "style_of ts2 = style_of (TitleStyle p)" "style_of bs2 = style_of (BarStyle p)"
    using st2 st1 by simp_all
  ultimately show ?thesis
    using st1 by blast
qed

text \<open>
  The frame of an active bar is its prefix, bar and suffix, whatever its nil styles have
  been replaced by; one \<^verbatim>\<open>Increment\<close> below the total and the one that reaches it.
\<close>

lemma render_active:
  assumes "atomicIsActive p = Some True" and "atomicTitle p \<noteq> None" and "Total p \<noteq> 0"
    and "bar_fits env p" and "getString_bounded env p = Inr (s, p1)"
  shows "s = before env p @ bar env p @ after env p"
  using getString_active [OF assms(1-3), of env] getString_bounded_fits [OF assms(4)] assms(5)
  by auto

lemma render_restyle:
  assumes "style_of ts = style_of (TitleStyle p)" and "style_of bs = style_of (BarStyle p)"
    and "atomicIsActive p = Some True" and "atomicTitle p \<noteq> None" and "Total p \<noteq> 0"
    and "bar_fits env p"
    and "getString_bounded env (p\<lparr>TitleStyle := ts, BarStyle := bs\<rparr>) = Inr (s, p1)"
  shows "s = before env p @ bar env p @ after env p"
proof -
  let ?r = "p\<lparr>TitleStyle := ts, BarStyle := bs\<rparr>"
  have f: "bar_fits env ?r"
    using assms(6) by (simp only: bar_fits_restyle [OF assms(1,2)])
  have a: "atomicIsActive ?r = Some True" "atomicTitle ?r \<noteq> None" "Total ?r \<noteq> 0"
    using assms(3-5) by simp_all
  from render_active [OF a f assms(7)]
  have "s = before env ?r @ bar env ?r @ after env ?r" .
  then show ?thesis
    by (simp only: layout_restyle [OF assms(1,2)])
qed

lemma Increment_bounded_below:
  assumes "Total q \<noteq> 0" and "atomicIsActive q = Some True" and "atomicTitle q \<noteq> None"
    and "style_of ts = style_of (TitleStyle q)" and "style_of bs = style_of (BarStyle q)"
    and "\<not> Total q \<le>s k + 1"
    and "bar_fits env (q\<lparr>Current := k + 1\<rparr>)"
  shows "\<exists>ts' bs'.
           style_of ts' = style_of (TitleStyle q) \<and> style_of bs' = style_of (BarStyle q) \<and>
           Increment_bounded env (q\<lparr>Current := k, TitleStyle := ts, BarStyle := bs\<rparr>) =
             Inr (q\<lparr>Current := k + 1, TitleStyle := ts', BarStyle := bs'\<rparr>,
                  [Fprinto (Writer q)
                     (before env (q\<lparr>Current := k + 1\<rparr>) @ bar env (q\<lparr>Current := k + 1\<rparr>) @
                      after env (q\<lparr>Current := k + 1\<rparr>))])"
proof -
  let ?r = "q\<lparr>Current := k, TitleStyle := ts, BarStyle := bs\<rparr>"
  let ?q1 = "q\<lparr>Current := k + 1\<rparr>"
  let ?r1 = "?q1\<lparr>TitleStyle := ts, BarStyle := bs\<rparr>"
  have r1: "?r\<lparr>Current := Current ?r + 1\<rparr> = ?r1"
    by simp
  have st: "style_of ts = style_of (TitleStyle ?q1)" "style_of bs = style_of (BarStyle ?q1)"
    using assms(4,5) by simp_all
  have q1: "atomicIsActive ?q1 = Some True" "atomicTitle ?q1 \<noteq> None" "Total ?q1 \<noteq> 0"
    using assms(1-3) by simp_all
  have "bar_fits env ?r1"
    using assms(7) by (simp only: bar_fits_restyle [OF st])
  then have fr: "bar_fits env (?r\<lparr>Current := Current ?r + 1\<rparr>)"
    by (simp only: r1)
  have h: "Total ?r \<noteq> 0" "atomicIsActive ?r \<noteq> None" "atomicTitle ?r \<noteq> None"
    "\<not> Total ?r \<le>s Current ?r + 1"
    using assms(1-3,6) by simp_all
  from Add_bounded_below [OF h fr]
  obtain s ts' bs'
    where g: "getString_bounded env (?r\<lparr>Current := Current ?r + 1\<rparr>) =
                Inr (s, ?r\<lparr>Current := Current ?r + 1, TitleStyle := ts', BarStyle := bs'\<rparr>)"
      and st': "style_of ts' = style_of (TitleStyle ?r)" "style_of bs' = style_of (BarStyle ?r)"
      and ad: "Add_bounded env ?r 1 =
                 Inr (ReturnedReceiver, ?r\<lparr>Current := Current ?r + 1, TitleStyle := ts', BarStyle := bs'\<rparr>,
                      [Fprinto (Writer ?r) s])"
    by blast
  from g have "getString_bounded env ?r1 =
                Inr (s, ?r\<lparr>Current := Current ?r + 1, TitleStyle := ts', BarStyle := bs'\<rparr>)"
    by (simp only: r1)
  from render_restyle [OF st q1 assms(7) this]
  have s: "s = before env ?q1 @ bar env ?q1 @ after env ?q1" .
  have "Increment_bounded env ?r =
          Inr (q\<lparr>Current := k + 1, TitleStyle := ts', BarStyle := bs'\<rparr>, [Fprinto (Writer q) s])"
    using ad by (simp add: Increment_bounded_def)
  moreover have "style_of ts' = style_of (TitleStyle q)" "style_of bs' = style_of (BarStyle q)"
    using st' assms(4,5) by simp_all
  ultimately show ?thesis
    unfolding s by blast
qed

lemma Increment_bounded_reach:
  assumes "Total q = k + 1" and "k + 1 \<noteq> 0"
    and "atomicIsActive q = Some True" and "atomicTitle q \<noteq> None"
    and "style_of ts = style_of (TitleStyle q)" and "style_of bs = style_of (BarStyle q)"
    and "bar_fits env (q\<lparr>Current := k + 1\<rparr>)"
  shows "\<exists>ts' bs'.
           Increment_bounded env (q\<lparr>Current := k, TitleStyle := ts, BarStyle := bs\<rparr>) =
             Inr (q\<lparr>Current := k + 1, TitleStyle := ts', BarStyle := bs',
                    rerenderTask := (if rerenderTask q = Some True then Some False else rerenderTask q),
                    IsActive := False, atomicIsActive := Some False\<rparr>,
                  [Fprinto (Writer q)
                     (before env (q\<lparr>Current := k + 1\<rparr>) @ bar env (q\<lparr>Current := k + 1\<rparr>) @
                      after env (q\<lparr>Current := k + 1\<rparr>)),
                   Fprinto (Writer q)
                     (before env (q\<lparr>Current := k + 1\<rparr>) @ bar env (q\<lparr>Current := k + 1\<rparr>) @
                      after env (q\<lparr>Current := k + 1\<rparr>))] @
                  (if rerenderTask q = Some True then [Task_Stop] else []) @ [cursor_Show] @
                  (if RemoveWhenDone q then [fClearLine (Writer q), Fprinto (Writer q) []]
                   else [Fprintln (Writer q) []]))"
proof -
  let ?r = "q\<lparr>Current := k, TitleStyle := ts, BarStyle := bs\<rparr>"
  let ?q1 = "q\<lparr>Current := k + 1\<rparr>"
  have tq: "Total q \<noteq> 0"
    using assms(1,2) by simp
  have q2: "q\<lparr>Current := k + 1, Total := k + 1\<rparr> = ?q1"
    using assms(1) by simp
  have r1: "?r\<lparr>Current := Current ?r + 1\<rparr> = ?q1\<lparr>TitleStyle := ts, BarStyle := bs\<rparr>"
    by simp
  have r2: "?r\<lparr>Current := Current ?r + 1, Total := Current ?r + 1\<rparr> =
              ?q1\<lparr>TitleStyle := ts, BarStyle := bs\<rparr>"
    using assms(1) by simp
  have st: "style_of ts = style_of (TitleStyle ?q1)" "style_of bs = style_of (BarStyle ?q1)"
    using assms(5,6) by simp_all
  have q1: "atomicIsActive ?q1 = Some True" "atomicTitle ?q1 \<noteq> None" "Total ?q1 \<noteq> 0"
    using assms(3,4) tq by simp_all
  have f: "bar_fits env (?q1\<lparr>TitleStyle := ts, BarStyle := bs\<rparr>)"
    using assms(7) by (simp only: bar_fits_restyle [OF st])
  have fr1: "bar_fits env (?r\<lparr>Current := Current ?r + 1\<rparr>)"
    using f by (simp only: r1)
  have fr2: "bar_fits env (?r\<lparr>Current := Current ?r + 1, Total := Current ?r + 1\<rparr>)"
    using f by (simp only: r2)
  have h: "Total ?r \<noteq> 0" "atomicIsActive ?r = Some True" "atomicTitle ?r \<noteq> None"
    "Total ?r \<le>s Current ?r + 1"
    using assms(1-4) by simp_all
  from Add_bounded_reach [OF h fr1 fr2]
  obtain s1 ts1 bs1 s2 ts2 bs2
    where g1: "getString_bounded env (?r\<lparr>Current := Current ?r + 1\<rparr>) =
             Inr (s1, ?r\<lparr>Current := Current ?r + 1, TitleStyle := ts1, BarStyle := bs1\<rparr>)"
      and g2: "getString_bounded env
               (?r\<lparr>Current := Current ?r + 1, Total := Current ?r + 1,
                  TitleStyle := ts1, BarStyle := bs1\<rparr>) =
             Inr (s2, ?r\<lparr>Current := Current ?r + 1, Total := Current ?r + 1,
                        TitleStyle := ts2, BarStyle := bs2\<rparr>)"
      and st1: "style_of ts1 = style_of (TitleStyle ?r)" "style_of bs1 = style_of (BarStyle ?r)"
      and ad: "Add_bounded env ?r 1 =
             Inr (ReturnedReceiver,
                  ?r\<lparr>Current := Current ?r + 1, Total := Current ?r + 1,
                    TitleStyle := ts2, BarStyle := bs2,
                    rerenderTask := (if rerenderTask ?r = Some True then Some False else rerenderTask ?r),
                    IsActive := (if True then False else IsActive ?r),
                    atomicIsActive := Some False\<rparr>,
                  [Fprinto (Writer ?r) s1, Fprinto (Writer ?r) s2] @
                  (if rerenderTask ?r = Some True then [Task_Stop] else []) @ [cursor_Show] @
                  (if True then (if RemoveWhenDone ?r then [fClearLine (Writer ?r), Fprinto (Writer ?r) []]
                              else [Fprintln (Writer ?r) []])
                   else []))"
    by blast
  from g1 have "getString_bounded env (?q1\<lparr>TitleStyle := ts, BarStyle := bs\<rparr>) =
             Inr (s1, ?r\<lparr>Current := Current ?r + 1, TitleStyle := ts1, BarStyle := bs1\<rparr>)"
    by (simp only: r1)
  from render_restyle [OF st q1 assms(7) this]
  have s1: "s1 = before env ?q1 @ bar env ?q1 @ after env ?q1" .
  have st1': "style_of ts1 = style_of (TitleStyle ?q1)" "style_of bs1 = style_of (BarStyle ?q1)"
    using st1 assms(5,6) by simp_all
  have "?r\<lparr>Current := Current ?r + 1, Total := Current ?r + 1, TitleStyle := ts1, BarStyle := bs1\<rparr> =
          ?q1\<lparr>TitleStyle := ts1, BarStyle := bs1\<rparr>"
    using assms(1) by simp
  with g2 have "getString_bounded env (?q1\<lparr>TitleStyle := ts1, BarStyle := bs1\<rparr>) =
             Inr (s2, ?r\<lparr>Current := Current ?r + 1, Total := Current ?r + 1,
                        TitleStyle := ts2, BarStyle := bs2\<rparr>)"
    by (simp only:)
  from render_restyle [OF st1' q1 assms(7) this]
  have s2: "s2 = before env ?q1 @ bar env ?q1 @ after env ?q1" .
  have "Increment_bounded env ?r =
             Inr (q\<lparr>Current := k + 1, TitleStyle := ts2, BarStyle := bs2,
                    rerenderTask := (if rerenderTask q = Some True then Some False else rerenderTask q),
                    IsActive := False, atomicIsActive := Some False\<rparr>,
                  [Fprinto (Writer q) s1, Fprinto (Writer q) s2] @
                  (if rerenderTask q = Some True then [Task_Stop] else []) @ [cursor_Show] @
                  (if RemoveWhenDone q then [fClearLine (Writer q), Fprinto (Writer q) []]
                   else [Fprintln (Writer q) []]))"
    using ad assms(1) by (simp add: Increment_bounded_def)
  then show ?thesis
    unfolding s1 s2 by blast
qed

lemma five_increments_bounded:
  assumes "Total q = 5" and "Current q = 0"
    and "atomicIsActive q = Some True" and "atomicTitle q \<noteq> None"
    and "bar_fits env (q\<lparr>Current := 1\<rparr>)" and "bar_fits env (q\<lparr>Current := 2\<rparr>)"
    and "bar_fits env (q\<lparr>Current := 3\<rparr>)" and "bar_fits env (q\<lparr>Current := 4\<rparr>)"
    and "bar_fits env (q\<lparr>Current := 5\<rparr>)"
  shows "\<exists>q5. Increments_bounded env 5 q =
                 Inr (q5,
                      map (\<lambda>k. Fprinto (Writer q)
                                 (before env (q\<lparr>Current := k\<rparr>) @ bar env (q\<lparr>Current := k\<rparr>) @
                                  after env (q\<lparr>Current := k\<rparr>)))
                          [1, 2, 3, 4, 5, 5] @
                      (if rerenderTask q = Some True then [Task_Stop] else []) @ [cursor_Show] @
                      (if RemoveWhenDone q then [fClearLine (Writer q), Fprinto (Writer q) []]
                       else [Fprintln (Writer q) []])) \<and>
              atomicIsActive q5 = Some False \<and> IsActive q5 = False \<and>
              Current q5 = 5 \<and> Total q5 = 5"
proof -
  have t: "Total q \<noteq> 0"
    using assms(1) by simp
  have b: "\<not> Total q \<le>s 0 + 1" "\<not> Total q \<le>s 1 + 1" "\<not> Total q \<le>s 2 + 1" "\<not> Total q \<le>s 3 + 1"
    using assms(1) by (simp_all add: word_sle_eq)
  have f: "bar_fits env (q\<lparr>Current := 0 + 1\<rparr>)" "bar_fits env (q\<lparr>Current := 1 + 1\<rparr>)"
    "bar_fits env (q\<lparr>Current := 2 + 1\<rparr>)" "bar_fits env (q\<lparr>Current := 3 + 1\<rparr>)"
    "bar_fits env (q\<lparr>Current := 4 + 1\<rparr>)"
    using assms(5-9) by simp_all
  have "q\<lparr>Current := Current q\<rparr> = q"
    by simp
  then have q0: "q\<lparr>Current := 0\<rparr> = q"
    using assms(2) by simp
  let ?F = "\<lambda>k. Fprinto (Writer q)
                   (before env (q\<lparr>Current := k\<rparr>) @ bar env (q\<lparr>Current := k\<rparr>) @
                    after env (q\<lparr>Current := k\<rparr>))"
  from Increment_bounded_below [OF t assms(3,4) refl refl b(1) f(1)]
  obtain ts1 bs1
    where st1: "style_of ts1 = style_of (TitleStyle q)" "style_of bs1 = style_of (BarStyle q)"
      and "Increment_bounded env (q\<lparr>Current := 0, TitleStyle := TitleStyle q, BarStyle := BarStyle q\<rparr>) =
             Inr (q\<lparr>Current := 0 + 1, TitleStyle := ts1, BarStyle := bs1\<rparr>, [?F (0 + 1)])"
    by blast
  then have i1: "Increment_bounded env q =
                   Inr (q\<lparr>Current := 1, TitleStyle := ts1, BarStyle := bs1\<rparr>, [?F 1])"
    by (simp add: q0)
  from Increment_bounded_below [OF t assms(3,4) st1 b(2) f(2)]
  obtain ts2 bs2
    where st2: "style_of ts2 = style_of (TitleStyle q)" "style_of bs2 = style_of (BarStyle q)"
      and "Increment_bounded env (q\<lparr>Current := 1, TitleStyle := ts1, BarStyle := bs1\<rparr>) =
             Inr (q\<lparr>Current := 1 + 1, TitleStyle := ts2, BarStyle := bs2\<rparr>, [?F (1 + 1)])"
    by blast
  then have i2: "Increment_bounded env (q\<lparr>Current := 1, TitleStyle := ts1, BarStyle := bs1\<rparr>) =
                   Inr (q\<lparr>Current := 2, TitleStyle := ts2, BarStyle := bs2\<rparr>, [?F 2])"
    by simp
  from Increment_bounded_below [OF t assms(3,4) st2 b(3) f(3)]
  obtain ts3 bs3
    where st3: "style_of ts3 = style_of (TitleStyle q)" "style_of bs3 = style_of (BarStyle q)"
      and "Increment_bounded env (q\<lparr>Current := 2, TitleStyle := ts2, BarStyle := bs2\<rparr>) =
             Inr (q\<lparr>Current := 2 + 1, TitleStyle := ts3, BarStyle := bs3\<rparr>, [?F (2 + 1)])"
    by blast
  then have i3: "Increment_bounded env (q\<lparr>Current := 2, TitleStyle := ts2, BarStyle := bs2\<rparr>) =
                   Inr (q\<lparr>Current := 3, TitleStyle := ts3, BarStyle := bs3\<rparr>, [?F 3])"
    by simp
  from Increment_bounded_below [OF t assms(3,4) st3 b(4) f(4)]
  obtain ts4 bs4
    where st4: "style_of ts4 = style_of (TitleStyle q)" "style_of bs4 = style_of (BarStyle q)"
      and "Increment_bounded env (q\<lparr>Current := 3, TitleStyle := ts3, BarStyle := bs3\<rparr>) =
             Inr (q\<lparr>Current := 3 + 1, TitleStyle := ts4, BarStyle := bs4\<rparr>, [?F (3 + 1)])"
    by blast
  then have i4: "Increment_bounded env (q\<lparr>Current := 3, TitleStyle := ts3, BarStyle := bs3\<rparr>) =
                   Inr (q\<lparr>Current := 4, TitleStyle := ts4, BarStyle := bs4\<rparr>, [?F 4])"
    by simp
  have t5: "Total q = 4 + 1" and n5: "(4 :: go_int) + 1 \<noteq> 0"
    using assms(1) by simp_all
  define stop where "stop = (if rerenderTask q = Some True then [Task_Stop] else []) @ [cursor_Show] @
                      (if RemoveWhenDone q then [fClearLine (Writer q), Fprinto (Writer q) []]
                       else [Fprintln (Writer q) []])"
  from Increment_bounded_reach [OF t5 n5 assms(3,4) st4 f(5)]
  obtain ts5 bs5
    where "Increment_bounded env (q\<lparr>Current := 4, TitleStyle := ts4, BarStyle := bs4\<rparr>) =
             Inr (q\<lparr>Current := 4 + 1, TitleStyle := ts5, BarStyle := bs5,
                    rerenderTask := (if rerenderTask q = Some True then Some False else rerenderTask q),
                    IsActive := False, atomicIsActive := Some False\<rparr>,
                  [?F (4 + 1), ?F (4 + 1)] @ stop)"
    unfolding stop_def by blast
  then have i5: "Increment_bounded env (q\<lparr>Current := 4, TitleStyle := ts4, BarStyle := bs4\<rparr>) =
             Inr (q\<lparr>Current := 5, TitleStyle := ts5, BarStyle := bs5,
                    rerenderTask := (if rerenderTask q = Some True then Some False else rerenderTask q),
                    IsActive := False, atomicIsActive := Some False\<rparr>,
                  [?F 5, ?F 5] @ stop)"
    by simp
  define q5 where "q5 = q\<lparr>Current := 5, TitleStyle := ts5, BarStyle := bs5,
                    rerenderTask := (if rerenderTask q = Some True then Some False else rerenderTask q),
                    IsActive := False, atomicIsActive := Some False\<rparr>"
  have "Increments_bounded env 5 q = Inr (q5, [?F 1, ?F 2, ?F 3, ?F 4, ?F 5, ?F 5] @ stop)"
    using i1 i2 i3 i4 i5 by (simp add: eval_nat_numeral q5_def)
  then have "Increments_bounded env 5 q = Inr (q5, map ?F [1, 2, 3, 4, 5, 5] @ stop)"
    by simp
  moreover have "atomicIsActive q5 = Some False \<and> IsActive q5 = False \<and>
              Current q5 = 5 \<and> Total q5 = 5"
    using assms(1) by (simp add: q5_def)
  ultimately show ?thesis
    unfolding stop_def by blast
qed

text \<open>
  C1, as the code has it. Take a bar with total \<open>\<noteq> 0\<close> whose atomics have been
  initialised (by an option setter or by \<^verbatim>\<open>Start\<close>) and a count for which no render of
  the call takes \<^verbatim>\<open>strings.Repeat\<close> past the range of \<^verbatim>\<open>int\<close> or past what the runtime
  can allocate. Then \<^verbatim>\<open>Add(count)\<close> returns the receiver after these steps. It adds
  \<open>count\<close> to \<open>Current\<close> and writes one frame, the render of the bar with the new
  \<open>Current\<close>. If the old total is now reached or passed,
  it sets \<open>Total\<close> to \<open>Current\<close>, writes a second frame, the render of the bar with the
  new total, and calls \<^verbatim>\<open>Stop\<close> once: the effects of the call are the two frames
  followed by the effects of that one \<^verbatim>\<open>Stop\<close>, and \<^verbatim>\<open>cursor.Show\<close>, which every
  \<^verbatim>\<open>Stop\<close> performs once, occurs once among them. Otherwise the first frame is the only
  effect and the total is unchanged.

  Consequently, on a started bar \<open>q\<close> with total 5 and current 0, five calls of
  \<^verbatim>\<open>Increment\<close> return and leave the bar inactive with current = total = 5. Their
  effects are, in this order: the frames of \<open>q\<close> at current 1, 2, 3, 4 and 5, the frame
  of \<open>q\<close> at current 5 of total 5 once more, and the effects of one \<^verbatim>\<open>Stop\<close>, which are
  the stop of the rerender task if there is one, one \<^verbatim>\<open>cursor.Show\<close> and one closing
  write (the newline, or the clearing of the line).
\<close>

theorem Add_within_Repeat_bounds_renders_clamps_and_stops_once:
  "(Total p \<noteq> 0 \<and> atomicIsActive p \<noteq> None \<and> atomicTitle p \<noteq> None \<and>
    bar_fits env (p\<lparr>Current := Current p + count\<rparr>) \<and>
    (Total p \<le>s Current p + count \<longrightarrow>
       bar_fits env (p\<lparr>Current := Current p + count, Total := Current p + count\<rparr>)) \<longrightarrow>
      (\<exists>s1 p1.
         getString_bounded env (p\<lparr>Current := Current p + count\<rparr>) = Inr (s1, p1) \<and>
         (if Total p \<le>s Current p + count
          then \<exists>s2 p2 p3 out3.
                 getString_bounded env (p1\<lparr>Total := Current p1\<rparr>) = Inr (s2, p2) \<and>
                 Current p2 = Current p + count \<and> Total p2 = Current p + count \<and>
                 Stop p2 = Inr (p3, out3) \<and>
                 Add_bounded env p count =
                   Inr (ReturnedReceiver, p3,
                        [Fprinto (Writer p) s1, Fprinto (Writer p) s2] @ out3) \<and>
                 count_list ([Fprinto (Writer p) s1, Fprinto (Writer p) s2] @ out3) cursor_Show = 1
          else Current p1 = Current p + count \<and> Total p1 = Total p \<and>
               Add_bounded env p count = Inr (ReturnedReceiver, p1, [Fprinto (Writer p) s1])))) \<and>
   (Total q = 5 \<and> Current q = 0 \<and> atomicIsActive q = Some True \<and> atomicTitle q \<noteq> None \<and>
    list_all (\<lambda>k. bar_fits env (q\<lparr>Current := k\<rparr>)) [1, 2, 3, 4, 5] \<longrightarrow>
      (\<exists>q5 out.
         Increments_bounded env 5 q = Inr (q5, out) \<and>
         out = map (\<lambda>k. Fprinto (Writer q)
                          (before env (q\<lparr>Current := k\<rparr>) @ bar env (q\<lparr>Current := k\<rparr>) @
                           after env (q\<lparr>Current := k\<rparr>)))
                   [1, 2, 3, 4, 5, 5] @
               (if rerenderTask q = Some True then [Task_Stop] else []) @ [cursor_Show] @
               (if RemoveWhenDone q then [fClearLine (Writer q), Fprinto (Writer q) []]
                else [Fprintln (Writer q) []]) \<and>
         count_list out cursor_Show = 1 \<and>
         atomicIsActive q5 = Some False \<and> IsActive q5 = False \<and>
         Current q5 = 5 \<and> Total q5 = 5))"
proof (intro conjI impI)
  assume h: "Total p \<noteq> 0 \<and> atomicIsActive p \<noteq> None \<and> atomicTitle p \<noteq> None \<and>
    bar_fits env (p\<lparr>Current := Current p + count\<rparr>) \<and>
    (Total p \<le>s Current p + count \<longrightarrow>
       bar_fits env (p\<lparr>Current := Current p + count, Total := Current p + count\<rparr>))"
  then have t: "Total p \<noteq> 0" and a: "atomicIsActive p \<noteq> None" and ti: "atomicTitle p \<noteq> None"
    and f1: "bar_fits env (p\<lparr>Current := Current p + count\<rparr>)"
    by simp_all
  show "\<exists>s1 p1.
         getString_bounded env (p\<lparr>Current := Current p + count\<rparr>) = Inr (s1, p1) \<and>
         (if Total p \<le>s Current p + count
          then \<exists>s2 p2 p3 out3.
                 getString_bounded env (p1\<lparr>Total := Current p1\<rparr>) = Inr (s2, p2) \<and>
                 Current p2 = Current p + count \<and> Total p2 = Current p + count \<and>
                 Stop p2 = Inr (p3, out3) \<and>
                 Add_bounded env p count =
                   Inr (ReturnedReceiver, p3,
                        [Fprinto (Writer p) s1, Fprinto (Writer p) s2] @ out3) \<and>
                 count_list ([Fprinto (Writer p) s1, Fprinto (Writer p) s2] @ out3) cursor_Show = 1
          else Current p1 = Current p + count \<and> Total p1 = Total p \<and>
               Add_bounded env p count = Inr (ReturnedReceiver, p1, [Fprinto (Writer p) s1]))"
  proof (cases "Total p \<le>s Current p + count")
    case True
    with h have f2: "bar_fits env (p\<lparr>Current := Current p + count, Total := Current p + count\<rparr>)"
      by simp
    obtain b where b: "atomicIsActive p = Some b"
      using a by auto
    define stop where "stop = (if rerenderTask p = Some True then [Task_Stop] else []) @ [cursor_Show] @
                  (if b then (if RemoveWhenDone p then [fClearLine (Writer p), Fprinto (Writer p) []]
                              else [Fprintln (Writer p) []])
                   else [])"
    from Add_bounded_reach [OF t b ti True f1 f2]
    obtain s1 ts1 bs1 s2 ts2 bs2
      where g1: "getString_bounded env (p\<lparr>Current := Current p + count\<rparr>) =
             Inr (s1, p\<lparr>Current := Current p + count, TitleStyle := ts1, BarStyle := bs1\<rparr>)"
        and g2: "getString_bounded env
               (p\<lparr>Current := Current p + count, Total := Current p + count,
                  TitleStyle := ts1, BarStyle := bs1\<rparr>) =
             Inr (s2, p\<lparr>Current := Current p + count, Total := Current p + count,
                        TitleStyle := ts2, BarStyle := bs2\<rparr>)"
        and ad: "Add_bounded env p count =
             Inr (ReturnedReceiver,
                  p\<lparr>Current := Current p + count, Total := Current p + count,
                    TitleStyle := ts2, BarStyle := bs2,
                    rerenderTask := (if rerenderTask p = Some True then Some False else rerenderTask p),
                    IsActive := (if b then False else IsActive p),
                    atomicIsActive := Some False\<rparr>,
                  [Fprinto (Writer p) s1, Fprinto (Writer p) s2] @ stop)"
      unfolding stop_def by blast
    define p1 where "p1 = p\<lparr>Current := Current p + count, TitleStyle := ts1, BarStyle := bs1\<rparr>"
    define p2 where "p2 = p\<lparr>Current := Current p + count, Total := Current p + count,
                        TitleStyle := ts2, BarStyle := bs2\<rparr>"
    define p3 where "p3 = p\<lparr>Current := Current p + count, Total := Current p + count,
                    TitleStyle := ts2, BarStyle := bs2,
                    rerenderTask := (if rerenderTask p = Some True then Some False else rerenderTask p),
                    IsActive := (if b then False else IsActive p),
                    atomicIsActive := Some False\<rparr>"
    have g1': "getString_bounded env (p\<lparr>Current := Current p + count\<rparr>) = Inr (s1, p1)"
      using g1 by (simp add: p1_def)
    have "p1\<lparr>Total := Current p1\<rparr> =
            p\<lparr>Current := Current p + count, Total := Current p + count,
              TitleStyle := ts1, BarStyle := bs1\<rparr>"
      by (simp add: p1_def)
    with g2 have g2': "getString_bounded env (p1\<lparr>Total := Current p1\<rparr>) = Inr (s2, p2)"
      by (simp only: p2_def)
    have c: "Current p2 = Current p + count" "Total p2 = Current p + count"
      by (simp_all add: p2_def)
    have "atomicIsActive p2 = Some b"
      using b by (simp add: p2_def)
    from Stop_initialised [OF this] have st: "Stop p2 = Inr (p3, stop)"
      by (simp add: p2_def p3_def stop_def)
    have ad': "Add_bounded env p count =
                 Inr (ReturnedReceiver, p3, [Fprinto (Writer p) s1, Fprinto (Writer p) s2] @ stop)"
      using ad by (simp only: p3_def)
    have n: "count_list ([Fprinto (Writer p) s1, Fprinto (Writer p) s2] @ stop) cursor_Show = 1"
      by (simp add: stop_def)
    from g2' c st ad' n
    have "\<exists>s2 p2 p3 out3.
                 getString_bounded env (p1\<lparr>Total := Current p1\<rparr>) = Inr (s2, p2) \<and>
                 Current p2 = Current p + count \<and> Total p2 = Current p + count \<and>
                 Stop p2 = Inr (p3, out3) \<and>
                 Add_bounded env p count =
                   Inr (ReturnedReceiver, p3,
                        [Fprinto (Writer p) s1, Fprinto (Writer p) s2] @ out3) \<and>
                 count_list ([Fprinto (Writer p) s1, Fprinto (Writer p) s2] @ out3) cursor_Show = 1"
      by blast
    with g1' True show ?thesis
      by (simp only: if_True) blast
  next
    case False
    from Add_bounded_below [OF t a ti False f1]
    obtain s1 ts bs
      where g1: "getString_bounded env (p\<lparr>Current := Current p + count\<rparr>) =
             Inr (s1, p\<lparr>Current := Current p + count, TitleStyle := ts, BarStyle := bs\<rparr>)"
        and ad: "Add_bounded env p count =
             Inr (ReturnedReceiver, p\<lparr>Current := Current p + count, TitleStyle := ts, BarStyle := bs\<rparr>,
                  [Fprinto (Writer p) s1])"
      by blast
    define p1 where "p1 = p\<lparr>Current := Current p + count, TitleStyle := ts, BarStyle := bs\<rparr>"
    have "Current p1 = Current p + count" "Total p1 = Total p"
      by (simp_all add: p1_def)
    with g1 ad False show ?thesis
      unfolding p1_def [symmetric] by (simp only: if_False) blast
  qed
next
  assume "Total q = 5 \<and> Current q = 0 \<and> atomicIsActive q = Some True \<and> atomicTitle q \<noteq> None \<and>
    list_all (\<lambda>k. bar_fits env (q\<lparr>Current := k\<rparr>)) [1, 2, 3, 4, 5]"
  then have "Total q = 5" "Current q = 0" "atomicIsActive q = Some True" "atomicTitle q \<noteq> None"
    "bar_fits env (q\<lparr>Current := 1\<rparr>)" "bar_fits env (q\<lparr>Current := 2\<rparr>)"
    "bar_fits env (q\<lparr>Current := 3\<rparr>)" "bar_fits env (q\<lparr>Current := 4\<rparr>)"
    "bar_fits env (q\<lparr>Current := 5\<rparr>)"
    by simp_all
  from five_increments_bounded [OF this]
  obtain q5 where run: "Increments_bounded env 5 q =
                 Inr (q5,
                      map (\<lambda>k. Fprinto (Writer q)
                                 (before env (q\<lparr>Current := k\<rparr>) @ bar env (q\<lparr>Current := k\<rparr>) @
                                  after env (q\<lparr>Current := k\<rparr>)))
                          [1, 2, 3, 4, 5, 5] @
                      (if rerenderTask q = Some True then [Task_Stop] else []) @ [cursor_Show] @
                      (if RemoveWhenDone q then [fClearLine (Writer q), Fprinto (Writer q) []]
                       else [Fprintln (Writer q) []]))"
    and q5: "atomicIsActive q5 = Some False \<and> IsActive q5 = False \<and> Current q5 = 5 \<and> Total q5 = 5"
    by blast
  have "count_list (map (\<lambda>k. Fprinto (Writer q)
                                 (before env (q\<lparr>Current := k\<rparr>) @ bar env (q\<lparr>Current := k\<rparr>) @
                                  after env (q\<lparr>Current := k\<rparr>)))
                          [1, 2, 3, 4, 5, 5] @
                      (if rerenderTask q = Some True then [Task_Stop] else []) @ [cursor_Show] @
                      (if RemoveWhenDone q then [fClearLine (Writer q), Fprinto (Writer q) []]
                       else [Fprintln (Writer q) []])) cursor_Show = 1"
    by simp
  with run q5
  show "\<exists>q5 out.
         Increments_bounded env 5 q = Inr (q5, out) \<and>
         out = map (\<lambda>k. Fprinto (Writer q)
                          (before env (q\<lparr>Current := k\<rparr>) @ bar env (q\<lparr>Current := k\<rparr>) @
                           after env (q\<lparr>Current := k\<rparr>)))
                   [1, 2, 3, 4, 5, 5] @
               (if rerenderTask q = Some True then [Task_Stop] else []) @ [cursor_Show] @
               (if RemoveWhenDone q then [fClearLine (Writer q), Fprinto (Writer q) []]
                else [Fprintln (Writer q) []]) \<and>
         count_list out cursor_Show = 1 \<and>
         atomicIsActive q5 = Some False \<and> IsActive q5 = False \<and>
         Current q5 = 5 \<and> Total q5 = 5"
    by blast
qed

text \<open>
  The theorem at the started five-step bar on a plain terminal of 40 columns: the fifth
  increment reaches the total, and the run of five increments writes the six frames and
  stops once.
\<close>

theorem Add_within_Repeat_bounds_renders_clamps_and_stops_once_witness:
  "(Total (started_bar 4) \<noteq> 0 \<and> atomicIsActive (started_bar 4) \<noteq> None \<and>
    atomicTitle (started_bar 4) \<noteq> None \<and>
    bar_fits (plain_terminal 40 0) ((started_bar 4)\<lparr>Current := Current (started_bar 4) + 1\<rparr>) \<and>
    Total (started_bar 4) \<le>s Current (started_bar 4) + 1 \<and>
    bar_fits (plain_terminal 40 0)
      ((started_bar 4)\<lparr>Current := Current (started_bar 4) + 1,
                        Total := Current (started_bar 4) + 1\<rparr>)) \<and>
   (\<exists>s1 p1 s2 p2 p3 out3.
      getString_bounded (plain_terminal 40 0)
          ((started_bar 4)\<lparr>Current := Current (started_bar 4) + 1\<rparr>) = Inr (s1, p1) \<and>
      getString_bounded (plain_terminal 40 0) (p1\<lparr>Total := Current p1\<rparr>) = Inr (s2, p2) \<and>
      Current p2 = Current (started_bar 4) + 1 \<and> Total p2 = Current (started_bar 4) + 1 \<and>
      Stop p2 = Inr (p3, out3) \<and>
      Add_bounded (plain_terminal 40 0) (started_bar 4) 1 =
        Inr (ReturnedReceiver, p3,
             [Fprinto (Writer (started_bar 4)) s1, Fprinto (Writer (started_bar 4)) s2] @ out3) \<and>
      count_list ([Fprinto (Writer (started_bar 4)) s1, Fprinto (Writer (started_bar 4)) s2] @ out3)
        cursor_Show = 1) \<and>
   Add_bounded (plain_terminal 40 0) (started_bar 4) 1 =
     Inr (ReturnedReceiver, (started_bar 5)\<lparr>IsActive := False, atomicIsActive := Some False\<rparr>,
          [Fprinto None ''Copying [5/5] ===================> 100% '',
           Fprinto None ''Copying [5/5] ===================> 100% '',
           cursor_Show, Fprintln None []]) \<and>
   (Total (started_bar 0) = 5 \<and> Current (started_bar 0) = 0 \<and>
    atomicIsActive (started_bar 0) = Some True \<and> atomicTitle (started_bar 0) \<noteq> None \<and>
    list_all (\<lambda>k. bar_fits (plain_terminal 40 0) ((started_bar 0)\<lparr>Current := k\<rparr>)) [1, 2, 3, 4, 5]) \<and>
   (\<exists>q5 out.
      Increments_bounded (plain_terminal 40 0) 5 (started_bar 0) = Inr (q5, out) \<and>
      out = map (\<lambda>k. Fprinto (Writer (started_bar 0))
                       (before (plain_terminal 40 0) ((started_bar 0)\<lparr>Current := k\<rparr>) @
                        bar (plain_terminal 40 0) ((started_bar 0)\<lparr>Current := k\<rparr>) @
                        after (plain_terminal 40 0) ((started_bar 0)\<lparr>Current := k\<rparr>)))
                [1, 2, 3, 4, 5, 5] @
            (if rerenderTask (started_bar 0) = Some True then [Task_Stop] else []) @ [cursor_Show] @
            (if RemoveWhenDone (started_bar 0)
             then [fClearLine (Writer (started_bar 0)), Fprinto (Writer (started_bar 0)) []]
             else [Fprintln (Writer (started_bar 0)) []]) \<and>
      count_list out cursor_Show = 1 \<and>
      atomicIsActive q5 = Some False \<and> IsActive q5 = False \<and>
      Current q5 = 5 \<and> Total q5 = 5) \<and>
   Increments_bounded (plain_terminal 40 0) 5 (started_bar 0) =
     Inr ((started_bar 5)\<lparr>IsActive := False, atomicIsActive := Some False\<rparr>,
          [Fprinto None ''Copying [1/5] ===>----------------  20% '',
           Fprinto None ''Copying [2/5] =======>------------  40% '',
           Fprinto None ''Copying [3/5] ===========>--------  60% '',
           Fprinto None ''Copying [4/5] ===============>----  80% '',
           Fprinto None ''Copying [5/5] ===================> 100% '',
           Fprinto None ''Copying [5/5] ===================> 100% '',
           cursor_Show, Fprintln None []])"
proof -
  note inst = Add_within_Repeat_bounds_renders_clamps_and_stops_once
    [where p = "started_bar 4" and env = "plain_terminal 40 0" and count = 1 and q = "started_bar 0"]
  have i: "Total (started_bar 4) \<noteq> 0 \<and> atomicIsActive (started_bar 4) \<noteq> None \<and>
           atomicTitle (started_bar 4) \<noteq> None"
    by (simp add: started_bar_def)
  have f1: "bar_fits (plain_terminal 40 0) ((started_bar 4)\<lparr>Current := Current (started_bar 4) + 1\<rparr>)"
    by code_simp
  have c: "Total (started_bar 4) \<le>s Current (started_bar 4) + 1"
    by (simp add: started_bar_def word_sle_eq)
  have f2: "bar_fits (plain_terminal 40 0)
      ((started_bar 4)\<lparr>Current := Current (started_bar 4) + 1,
                        Total := Current (started_bar 4) + 1\<rparr>)"
    by code_simp
  from i f1 c f2
  have h1: "Total (started_bar 4) \<noteq> 0 \<and> atomicIsActive (started_bar 4) \<noteq> None \<and>
    atomicTitle (started_bar 4) \<noteq> None \<and>
    bar_fits (plain_terminal 40 0) ((started_bar 4)\<lparr>Current := Current (started_bar 4) + 1\<rparr>) \<and>
    Total (started_bar 4) \<le>s Current (started_bar 4) + 1 \<and>
    bar_fits (plain_terminal 40 0)
      ((started_bar 4)\<lparr>Current := Current (started_bar 4) + 1,
                        Total := Current (started_bar 4) + 1\<rparr>)"
    by blast
  have j: "Total (started_bar 0) = 5 \<and> Current (started_bar 0) = 0 \<and>
    atomicIsActive (started_bar 0) = Some True \<and> atomicTitle (started_bar 0) \<noteq> None"
    by (simp add: started_bar_def)
  have l: "list_all (\<lambda>k. bar_fits (plain_terminal 40 0) ((started_bar 0)\<lparr>Current := k\<rparr>)) [1, 2, 3, 4, 5]"
    by code_simp
  from j l
  have h2: "Total (started_bar 0) = 5 \<and> Current (started_bar 0) = 0 \<and>
    atomicIsActive (started_bar 0) = Some True \<and> atomicTitle (started_bar 0) \<noteq> None \<and>
    list_all (\<lambda>k. bar_fits (plain_terminal 40 0) ((started_bar 0)\<lparr>Current := k\<rparr>)) [1, 2, 3, 4, 5]"
    by blast
  from inst h1 have a: "\<exists>s1 p1 s2 p2 p3 out3.
      getString_bounded (plain_terminal 40 0)
          ((started_bar 4)\<lparr>Current := Current (started_bar 4) + 1\<rparr>) = Inr (s1, p1) \<and>
      getString_bounded (plain_terminal 40 0) (p1\<lparr>Total := Current p1\<rparr>) = Inr (s2, p2) \<and>
      Current p2 = Current (started_bar 4) + 1 \<and> Total p2 = Current (started_bar 4) + 1 \<and>
      Stop p2 = Inr (p3, out3) \<and>
      Add_bounded (plain_terminal 40 0) (started_bar 4) 1 =
        Inr (ReturnedReceiver, p3,
             [Fprinto (Writer (started_bar 4)) s1, Fprinto (Writer (started_bar 4)) s2] @ out3) \<and>
      count_list ([Fprinto (Writer (started_bar 4)) s1, Fprinto (Writer (started_bar 4)) s2] @ out3)
        cursor_Show = 1"
    by (simp only: if_True simp_thms) blast
  from inst h2 have b: "\<exists>q5 out.
      Increments_bounded (plain_terminal 40 0) 5 (started_bar 0) = Inr (q5, out) \<and>
      out = map (\<lambda>k. Fprinto (Writer (started_bar 0))
                       (before (plain_terminal 40 0) ((started_bar 0)\<lparr>Current := k\<rparr>) @
                        bar (plain_terminal 40 0) ((started_bar 0)\<lparr>Current := k\<rparr>) @
                        after (plain_terminal 40 0) ((started_bar 0)\<lparr>Current := k\<rparr>)))
                [1, 2, 3, 4, 5, 5] @
            (if rerenderTask (started_bar 0) = Some True then [Task_Stop] else []) @ [cursor_Show] @
            (if RemoveWhenDone (started_bar 0)
             then [fClearLine (Writer (started_bar 0)), Fprinto (Writer (started_bar 0)) []]
             else [Fprintln (Writer (started_bar 0)) []]) \<and>
      count_list out cursor_Show = 1 \<and>
      atomicIsActive q5 = Some False \<and> IsActive q5 = False \<and>
      Current q5 = 5 \<and> Total q5 = 5"
    by blast
  have one: "Add_bounded (plain_terminal 40 0) (started_bar 4) 1 =
     Inr (ReturnedReceiver, (started_bar 5)\<lparr>IsActive := False, atomicIsActive := Some False\<rparr>,
          [Fprinto None ''Copying [5/5] ===================> 100% '',
           Fprinto None ''Copying [5/5] ===================> 100% '',
           cursor_Show, Fprintln None []])"
    by code_simp
  have run: "Increments_bounded (plain_terminal 40 0) 5 (started_bar 0) =
     Inr ((started_bar 5)\<lparr>IsActive := False, atomicIsActive := Some False\<rparr>,
          [Fprinto None ''Copying [1/5] ===>----------------  20% '',
           Fprinto None ''Copying [2/5] =======>------------  40% '',
           Fprinto None ''Copying [3/5] ===========>--------  60% '',
           Fprinto None ''Copying [4/5] ===============>----  80% '',
           Fprinto None ''Copying [5/5] ===================> 100% '',
           Fprinto None ''Copying [5/5] ===================> 100% '',
           cursor_Show, Fprintln None []])"
    by code_simp
  from conjI [OF h1 conjI [OF a conjI [OF one conjI [OF h2 conjI [OF b run]]]]]
  show ?thesis .
qed

text \<open>
  C1, as the claim states it, fails on bars with total \<open>\<noteq> 0\<close> on which \<^verbatim>\<open>Add\<close> does not
  return and writes nothing. On the struct literal with total 5, whose atomics are nil, \<^verbatim>\<open>Add(1)\<close>
  panics with a nil pointer dereference. On the started bar of one step whose bar
  character takes three bytes, on a terminal of 40 columns, \<open>Add(2\<^sup>5\<^sup>8)\<close> renders before
  it clamps: the filled length is \<open>30 * 2\<^sup>5\<^sup>8\<close>, three bytes times that is past the range
  of \<^verbatim>\<open>int\<close>, and \<^verbatim>\<open>strings.Repeat\<close> panics. On the same bar with a bar character of
  one byte, \<open>Add(2\<^sup>5\<^sup>0)\<close> asks for a filled run of \<open>30 * 2\<^sup>5\<^sup>0\<close> bytes, more than the
  \<open>2\<^sup>4\<^sup>8\<close> that the runtime of this terminal can allocate.
\<close>

theorem Add_panics_on_nil_atomics_and_on_Repeat_overflow:
  "Total (zero_value\<lparr>Total := 5\<rparr>) = 5 \<and>
   Add_bounded (plain_terminal 40 0) (zero_value\<lparr>Total := 5\<rparr>) 1 = Inl NilPointerDereference \<and>
   Total block_bar = 1 \<and> Current block_bar = 0 \<and>
   atomicIsActive block_bar = Some True \<and> atomicTitle block_bar = Some ''Copying'' \<and>
   length (BarCharacter block_bar) = 3 \<and>
   sint (barCurrentLength (plain_terminal 40 0) (block_bar\<lparr>Current := 288230376151711744\<rparr>)) =
     8646911284551352320 \<and>
   strings_Repeat (plain_terminal 40 0) (BarCharacter block_bar)
       (barCurrentLength (plain_terminal 40 0) (block_bar\<lparr>Current := 288230376151711744\<rparr>)) =
     Inl RepeatOutputOverflow \<and>
   Add_bounded (plain_terminal 40 0) block_bar 288230376151711744 = Inl RepeatOutputOverflow \<and>
   Total one_step_bar = 1 \<and> Current one_step_bar = 0 \<and>
   atomicIsActive one_step_bar = Some True \<and> atomicTitle one_step_bar = Some ''Copying'' \<and>
   length (BarCharacter one_step_bar) = 1 \<and>
   sint (barCurrentLength (plain_terminal 40 0) (one_step_bar\<lparr>Current := 1125899906842624\<rparr>)) =
     33776997205278720 \<and>
   maxAlloc (plain_terminal 40 0) = 281474976710656 \<and>
   Add_bounded (plain_terminal 40 0) one_step_bar 1125899906842624 = Inl AllocationFailure"
  by code_simp

end
